theory Spec2Isabelle
  imports Complex_Main "HOL-Library.Sublist"
begin

section \<open>MedGuardian: model loading and report flagging\<close>

text \<open>
  A shallow embedding of the two halves of the program that carry logic:
  \<^item> \<open>app.py\<close>: \<open>_is_probable_pickle\<close>, \<open>_safe_load\<close>, \<open>safe_predict_proba\<close>;
  \<^item> \<open>report.py\<close>: the tables \<open>normal_ranges\<close> and \<open>rename_keys\<close>, \<open>check_flag\<close>, \<open>s\<close>
    and the part of \<open>generate_pdf_report\<close> that renames the keys and builds the result rows.

  Conventions. A Python \<open>str\<close> is a \<open>string\<close> whose characters are the code points
  0..255; a \<open>bytes\<close> object is a \<open>string\<close> as well. A Python \<open>dict\<close> is an association
  list in insertion order. An exception is a value of type \<open>exn\<close> and a computation that
  may raise returns \<open>exn + 'a\<close>, with \<open>Inl\<close> for the exception.
\<close>

subsection \<open>Exceptions\<close>

datatype exn =
    FileNotFoundError string
  | OSError string
  | ValueError string
  | RuntimeError string
  | UnboundLocalError string
  | AttributeError string
  | IndexError string
  | TypeError string
  | OverflowError string
  | LibraryError string
  | UnprintableError exn
  | KeyboardInterrupt
  | SystemExit string

text \<open>
  \<open>KeyboardInterrupt\<close> and \<open>SystemExit\<close> derive from \<open>BaseException\<close> and not from
  \<open>Exception\<close>: \<open>except Exception\<close> lets them through. All the others are subclasses of
  \<open>Exception\<close>. \<open>LibraryError\<close> is an exception of a library (joblib, pickle, a model)
  with its message; \<open>UnprintableError e\<close> is one whose text cannot be produced: \<open>str\<close> of
  it, and so an f-string or a \<open>print\<close> that formats it, raises \<open>e\<close>.
\<close>

fun is_Exception :: "exn \<Rightarrow> bool" where
  "is_Exception KeyboardInterrupt = False"
| "is_Exception (SystemExit _) = False"
| "is_Exception _ = True"

text \<open>\<open>str(e)\<close>, as an f-string or \<open>print\<close> formats an exception: its message.\<close>

fun str_exn :: "exn \<Rightarrow> exn + string" where
  "str_exn (FileNotFoundError m) = Inr m"
| "str_exn (OSError m) = Inr m"
| "str_exn (ValueError m) = Inr m"
| "str_exn (RuntimeError m) = Inr m"
| "str_exn (UnboundLocalError m) = Inr m"
| "str_exn (AttributeError m) = Inr m"
| "str_exn (IndexError m) = Inr m"
| "str_exn (TypeError m) = Inr m"
| "str_exn (OverflowError m) = Inr m"
| "str_exn (LibraryError m) = Inr m"
| "str_exn (UnprintableError e) = Inl e"
| "str_exn KeyboardInterrupt = Inr []"
| "str_exn (SystemExit m) = Inr m"

text \<open>\<open>print(..., e)\<close> in a handler: it raises what formatting \<open>e\<close> raises.\<close>

definition print_exn :: "exn \<Rightarrow> exn + unit" where
  "print_exn e = (case str_exn e of Inl e' \<Rightarrow> Inl e' | Inr _ \<Rightarrow> Inr ())"

subsection \<open>Python string operations\<close>

text \<open>
  \<open>str.isspace\<close> on the code points below 256: tab, line feed, vertical tab, form feed,
  carriage return, the four separators 0x1C..0x1F, space, NEL (0x85) and the no-break
  space (0xA0).
\<close>

definition isspace :: "char \<Rightarrow> bool" where
  "isspace c \<longleftrightarrow> of_char c \<in> {9, 10, 11, 12, 13, 28, 29, 30, 31, 32, 133, 160 :: nat}"

definition strip :: "string \<Rightarrow> string" where
  "strip t = rev (dropWhile isspace (rev (dropWhile isspace t)))"

text \<open>
  \<open>str.lower\<close> on the code points below 256: the ASCII capitals, and the Latin-1 capitals
  0xC0..0xDE without the multiplication sign 0xD7, move up by 32.
\<close>

definition lower_char :: "char \<Rightarrow> char" where
  "lower_char c =
     (let n = (of_char c :: nat)
      in if (65 \<le> n \<and> n \<le> 90) \<or> (192 \<le> n \<and> n \<le> 222 \<and> n \<noteq> 215)
         then char_of (n + 32) else c)"

definition lower :: "string \<Rightarrow> string" where
  "lower t = map lower_char t"

text \<open>\<open>t.replace(c, "")\<close> for a one-character \<open>c\<close>, and \<open>c in t\<close>.\<close>

definition remove_char :: "char \<Rightarrow> string \<Rightarrow> string" where
  "remove_char c t = filter (\<lambda>d. d \<noteq> c) t"

text \<open>\<open>t.split(c)\<close> for a one-character separator: never empty, one more part than separators.\<close>

fun split_on :: "char \<Rightarrow> string \<Rightarrow> string list" where
  "split_on c [] = [[]]"
| "split_on c (d # t) =
     (if d = c then [] # split_on c t
      else (case split_on c t of p # ps \<Rightarrow> (d # p) # ps | [] \<Rightarrow> [[d]]))"

subsection \<open>Dictionaries in insertion order\<close>

text \<open>
  \<open>d[k] = v\<close>: a key that is present keeps its position and takes the new value, a new
  key goes to the end. \<open>d.get(k)\<close> is \<open>map_of d k\<close>, \<open>k in d\<close> is \<open>k \<in> set (map fst d)\<close>
  and \<open>d.items()\<close> is the list itself.
\<close>

fun dict_set :: "('k \<times> 'v) list \<Rightarrow> 'k \<Rightarrow> 'v \<Rightarrow> ('k \<times> 'v) list" where
  "dict_set [] k v = [(k, v)]"
| "dict_set ((k', v') # d) k v =
     (if k' = k then (k, v) # d else (k', v') # dict_set d k v)"

definition dict_get :: "('k \<times> 'v) list \<Rightarrow> 'k \<Rightarrow> 'v \<Rightarrow> 'v" where
  "dict_get d k dflt = (case map_of d k of Some v \<Rightarrow> v | None \<Rightarrow> dflt)"

subsection \<open>The tables of \<open>report.py\<close>\<close>

definition normal_ranges :: "(string \<times> string) list" where
  "normal_ranges =
    [(''Chest Pain Type'', ''0 - 3''),
     (''Resting Blood Pressure'', ''90 - 120''),
     (''Cholesterol'', ''< 200''),
     (''Fasting Blood Sugar'', ''< 100''),
     (''Resting ECG'', ''0 - 2''),
     (''Max Heart Rate'', ''60 - 100''),
     (''Exercise Induced Angina'', ''No''),
     (''ST Depression'', ''0 - 1''),
     (''ST Slope'', ''0 - 2''),
     (''Major Vessels Colored'', ''0 - 1''),
     (''Thalassemia'', ''0 - 1''),
     (''BMI'', ''18.5 - 24.9''),
     (''Blood Glucose'', ''70 - 99''),
     (''HbA1c'', ''4 - 5.6''),
     (''Hypertension'', ''No''),
     (''Blood Pressure'', ''90 - 120''),
     (''Specific Gravity'', ''1.005 - 1.030''),
     (''Albumin'', ''0 - 1''),
     (''Sugar'', ''0 - 1''),
     (''Red Blood Cells'', ''Normal''),
     (''Pus Cell'', ''Normal''),
     (''Pus Cell Clumps'', ''No''),
     (''Bacteria'', ''No''),
     (''Blood Glucose Random'', ''70 - 140''),
     (''Blood Urea'', ''7 - 20''),
     (''Serum Creatinine'', ''0.6 - 1.2''),
     (''Sodium'', ''135 - 145''),
     (''Potassium'', ''3.5 - 5.0''),
     (''Haemoglobin'', ''12 - 17''),
     (''Packed Cell Volume'', ''38 - 52''),
     (''White Blood Cell Count'', ''4000 - 11000''),
     (''Red Blood Cell Count'', ''4.5 - 6.0''),
     (''Diabetes Mellitus'', ''-''),
     (''Coronary Artery Disease'', ''-''),
     (''Appetite'', ''-''),
     (''Peda Edema'', ''-''),
     (''Anaemia'', ''-'')]"

definition rename_keys :: "(string \<times> string) list" where
  "rename_keys =
    [(''cp'', ''Chest Pain Type''),
     (''restbps'', ''Resting Blood Pressure''),
     (''chol'', ''Cholesterol''),
     (''fbs'', ''Fasting Blood Sugar''),
     (''restecg'', ''Resting ECG''),
     (''thalach'', ''Max Heart Rate''),
     (''exang'', ''Exercise Induced Angina''),
     (''oldpeak'', ''ST Depression''),
     (''slope'', ''ST Slope''),
     (''ca'', ''Major Vessels Colored''),
     (''thal'', ''Thalassemia''),
     (''bmi'', ''BMI''),
     (''glucose'', ''Blood Glucose''),
     (''hba'', ''HbA1c''),
     (''hyt'', ''Hypertension''),
     (''bp'', ''Blood Pressure''),
     (''sg'', ''Specific Gravity''),
     (''al'', ''Albumin''),
     (''su'', ''Sugar''),
     (''red_blood_cells'', ''Red Blood Cells''),
     (''pc'', ''Pus Cell''),
     (''pcc'', ''Pus Cell Clumps''),
     (''ba'', ''Bacteria''),
     (''bgr'', ''Blood Glucose Random''),
     (''bu'', ''Blood Urea''),
     (''sc'', ''Serum Creatinine''),
     (''sod'', ''Sodium''),
     (''pot'', ''Potassium''),
     (''hemo'', ''Haemoglobin''),
     (''pcv'', ''Packed Cell Volume''),
     (''wc'', ''White Blood Cell Count''),
     (''rc'', ''Red Blood Cell Count''),
     (''htn'', ''Hypertension''),
     (''dm'', ''Diabetes Mellitus''),
     (''cad'', ''Coronary Artery Disease''),
     (''appet'', ''Appetite''),
     (''pe'', ''Peda Edema''),
     (''ane'', ''Anaemia'')]"

subsection \<open>The Canonicalizer\<close>

text \<open>
  \<open>new_k = rename_keys.get(k, k)\<close>, and the loop of \<open>generate_pdf_report\<close> that fills
  \<open>fixed\<close> from \<open>(data or {}).items()\<close>.
\<close>

definition canonicalize :: "string \<Rightarrow> string" where
  "canonicalize k = dict_get rename_keys k k"

fun rename_into :: "(string \<times> 'v) list \<Rightarrow> (string \<times> 'v) list \<Rightarrow> (string \<times> 'v) list" where
  "rename_into fixed [] = fixed"
| "rename_into fixed ((k, v) # items) = rename_into (dict_set fixed (canonicalize k) v) items"

definition fixed_of :: "(string \<times> 'v) list option \<Rightarrow> (string \<times> 'v) list" where
  "fixed_of data = rename_into [] (case data of None \<Rightarrow> [] | Some d \<Rightarrow> d)"

subsection \<open>Python floats and \<open>float(text)\<close>\<close>

text \<open>
  A \<open>float\<close> is an IEEE binary64 value: a finite one is the rational it denotes (the two
  zeros compare equal and are one value here), the others are the infinities and NaN.
  The comparisons are those of IEEE: every comparison with NaN is false.
\<close>

datatype pyfloat = Fin rat | PosInf | NegInf | NaN

fun float_lt :: "pyfloat \<Rightarrow> pyfloat \<Rightarrow> bool" where
  "float_lt NaN _ = False"
| "float_lt _ NaN = False"
| "float_lt PosInf _ = False"
| "float_lt _ NegInf = False"
| "float_lt NegInf _ = True"
| "float_lt _ PosInf = True"
| "float_lt (Fin a) (Fin b) = (a < b)"

definition float_gt :: "pyfloat \<Rightarrow> pyfloat \<Rightarrow> bool" where
  "float_gt a b = float_lt b a"

text \<open>
  Rounding a rational to the nearest binary64 value, ties to even: \<open>bits p\<close> is the
  bit length of \<open>p\<close>, \<open>pow2 i\<close> is \<open>2\<close> to the \<open>i\<close>, the exponent of a value below the
  normal range is that of the subnormals, and a result of \<open>2\<close> to the 1024 or more is
  an infinity.
\<close>

fun bits :: "nat \<Rightarrow> nat" where
  "bits n = (if n = 0 then 0 else Suc (bits (n div 2)))"

declare bits.simps [simp del]

definition pow2 :: "int \<Rightarrow> rat" where
  "pow2 i = (if 0 \<le> i then 2 ^ nat i else 1 / 2 ^ nat (- i))"

definition round_half_even :: "rat \<Rightarrow> int" where
  "round_half_even x =
     (let f = \<lfloor>x\<rfloor>; d = x - of_int f
      in if d < 1 / 2 then f else if 1 / 2 < d then f + 1
         else if even f then f else f + 1)"

definition to_double :: "rat \<Rightarrow> pyfloat" where
  "to_double q =
     (if q = 0 then Fin 0
      else
        let a = \<bar>q\<bar>;
            k = int (bits (nat (fst (quotient_of a)))) - int (bits (nat (snd (quotient_of a))));
            e = max (if pow2 k \<le> a then k else k - 1) (- 1022);
            u = pow2 (e - 52);
            r = of_int (round_half_even (a / u)) * u
        in if pow2 1024 \<le> r then (if 0 < q then PosInf else NegInf)
           else Fin (if 0 < q then r else - r))"

text \<open>
  The text \<open>float\<close> accepts, after stripping white space: an optional sign, then
  \<open>inf\<close>, \<open>infinity\<close> or \<open>nan\<close> in any letter case, or a decimal number: digits with an
  optional point (digits on at least one side of it) and an optional exponent. The
  digits of one run may be separated by single underscores. Anything else raises
  ValueError.
\<close>

definition is_digit :: "char \<Rightarrow> bool" where
  "is_digit c \<longleftrightarrow> 48 \<le> (of_char c :: nat) \<and> (of_char c :: nat) \<le> 57"

definition digit_val :: "char \<Rightarrow> nat" where
  "digit_val c = of_char c - 48"

fun no_double_underscore :: "string \<Rightarrow> bool" where
  "no_double_underscore (c # d # t) =
     (\<not> (c = CHR ''_'' \<and> d = CHR ''_'') \<and> no_double_underscore (d # t))"
| "no_double_underscore _ = True"

definition digitpart :: "string \<Rightarrow> bool" where
  "digitpart t \<longleftrightarrow>
     t \<noteq> [] \<and> (\<forall>c \<in> set t. is_digit c \<or> c = CHR ''_'') \<and> is_digit (hd t) \<and>
     is_digit (last t) \<and> no_double_underscore t"

definition digits_value :: "string \<Rightarrow> nat" where
  "digits_value t = foldl (\<lambda>n c. 10 * n + digit_val c) 0 (filter is_digit t)"

definition split_sign :: "string \<Rightarrow> bool \<times> string" where
  "split_sign t =
     (case t of
        c # r \<Rightarrow> if c = CHR ''-'' then (True, r) else if c = CHR ''+'' then (False, r)
                 else (False, t)
      | [] \<Rightarrow> (False, t))"

definition is_exp_mark :: "char \<Rightarrow> bool" where
  "is_exp_mark c \<longleftrightarrow> c = CHR ''e'' \<or> c = CHR ''E''"

text \<open>The exponent, when the text after the mark is a signed run of digits.\<close>

definition parse_exponent :: "string \<Rightarrow> int option" where
  "parse_exponent t =
     (case split_sign t of
        (neg, ds) \<Rightarrow>
          if digitpart ds
          then Some (if neg then - int (digits_value ds) else int (digits_value ds))
          else None)"

text \<open>The mantissa: the digits before and after the point, as (integer, number of decimals).\<close>

definition parse_mantissa :: "string \<Rightarrow> (nat \<times> nat) option" where
  "parse_mantissa t =
     (let ip = takeWhile (\<lambda>c. c \<noteq> CHR ''.'') t;
          rest = dropWhile (\<lambda>c. c \<noteq> CHR ''.'') t
      in case rest of
           [] \<Rightarrow> if digitpart ip then Some (digits_value ip, 0) else None
         | _ # fp \<Rightarrow>
             if (ip = [] \<or> digitpart ip) \<and> (fp = [] \<or> digitpart fp) \<and> \<not> (ip = [] \<and> fp = [])
             then Some (digits_value (ip @ fp), length (filter is_digit fp))
             else None)"

definition decimal_value :: "nat \<Rightarrow> nat \<Rightarrow> int \<Rightarrow> rat" where
  "decimal_value m decimals ex =
     (let x = ex - int decimals
      in if 0 \<le> x then of_nat m * 10 ^ nat x else of_nat m / 10 ^ nat (- x))"

definition parse_number :: "string \<Rightarrow> rat option" where
  "parse_number t =
     (let mant = takeWhile (\<lambda>c. \<not> is_exp_mark c) t;
          rest = dropWhile (\<lambda>c. \<not> is_exp_mark c) t
      in case parse_mantissa mant of
           None \<Rightarrow> None
         | Some (m, decimals) \<Rightarrow>
             (case rest of
                [] \<Rightarrow> Some (decimal_value m decimals 0)
              | _ # et \<Rightarrow>
                  (case parse_exponent et of
                     None \<Rightarrow> None
                   | Some ex \<Rightarrow> Some (decimal_value m decimals ex))))"

definition float_py :: "string \<Rightarrow> exn + pyfloat" where
  "float_py text =
     (case split_sign (strip text) of
        (neg, body) \<Rightarrow>
          if lower body = ''inf'' \<or> lower body = ''infinity''
          then Inr (if neg then NegInf else PosInf)
          else if lower body = ''nan'' then Inr NaN
          else (case parse_number body of
                  None \<Rightarrow> Inl (ValueError ''could not convert string to float'')
                | Some q \<Rightarrow> Inr (to_double (if neg then - q else q))))"

subsection \<open>Python values and \<open>str(value)\<close>\<close>

text \<open>
  The values a report dictionary holds. A float comes with the text \<open>str\<close> gives for it
  (the shortest-repr algorithm is not modelled); any other object is the outcome of
  \<open>str\<close> on it, which is all \<open>check_flag\<close> and \<open>s\<close> observe and which may raise.
\<close>

datatype pyval =
    PNone
  | PBool bool
  | PInt int
  | PFloat pyfloat string
  | PStr string
  | PObj "exn + string"

fun digits_of_nat :: "nat \<Rightarrow> string" where
  "digits_of_nat n =
     (if n < 10 then [char_of (48 + n)]
      else digits_of_nat (n div 10) @ [char_of (48 + n mod 10)])"

declare digits_of_nat.simps [simp del]

definition str_int :: "int \<Rightarrow> string" where
  "str_int i = (if i < 0 then CHR ''-'' # digits_of_nat (nat (- i)) else digits_of_nat (nat i))"

fun str_py :: "pyval \<Rightarrow> exn + string" where
  "str_py PNone = Inr ''None''"
| "str_py (PBool b) = Inr (if b then ''True'' else ''False'')"
| "str_py (PInt i) = Inr (str_int i)"
| "str_py (PFloat f r) = Inr r"
| "str_py (PStr t) = Inr t"
| "str_py (PObj r) = r"

subsection \<open>The Flagger: \<open>check_flag\<close>\<close>

text \<open>
  The two vocabularies of the string heuristics, then the body of the outer \<open>try\<close>:
  \<open>Inl\<close> is an exception that reaches the outer \<open>except Exception\<close>, \<open>Inr (Some r)\<close> a
  \<open>return r\<close> and \<open>Inr None\<close> the end of the block with no \<open>return\<close>. The conversion of the
  value is inside the inner \<open>try\<close>, whose bare \<open>except\<close> returns \<open>Normal\<close>; the conversion of
  the bounds of the range is not.
\<close>

definition high_words :: "string list" where
  "high_words = [''yes'', ''poor'', ''abnormal'', ''high'', ''true'', ''1'']"

definition normal_words :: "string list" where
  "normal_words = [''no'', ''good'', ''normal'', ''false'', ''0'']"

definition range_check :: "string \<Rightarrow> string \<Rightarrow> exn + string option" where
  "range_check rg s =
     (if CHR ''<'' \<in> set rg then
        (case float_py (strip (remove_char CHR ''<'' rg)) of
           Inl e \<Rightarrow> Inl e
         | Inr limit \<Rightarrow>
             (case float_py s of
                Inl _ \<Rightarrow> Inr (Some ''Normal'')
              | Inr v \<Rightarrow> Inr (Some (if float_gt v limit then ''High'' else ''Normal''))))
      else if CHR ''-'' \<in> set rg then
        (case split_on CHR ''-'' rg of
           [p0, p1] \<Rightarrow>
             (case float_py (strip p0) of
                Inl e \<Rightarrow> Inl e
              | Inr low \<Rightarrow>
                  (case float_py (strip p1) of
                     Inl e \<Rightarrow> Inl e
                   | Inr high \<Rightarrow>
                       (case float_py s of
                          Inl _ \<Rightarrow> Inr (Some ''Normal'')
                        | Inr val \<Rightarrow>
                            Inr (Some (if float_lt val low then ''Low''
                                       else if float_gt val high then ''High''
                                       else ''Normal'')))))
         | _ \<Rightarrow> Inr None)
      else Inr None)"

definition check_flag :: "string \<Rightarrow> pyval \<Rightarrow> exn + string" where
  "check_flag param val =
     (if val = PNone then Inr ''Normal''
      else
        (case str_py val of
           Inl e \<Rightarrow> Inl e
         | Inr sv \<Rightarrow>
             (let s = strip sv in
              if s = [] then Inr ''Normal''
              else
                (let low_s = lower s in
                 if low_s \<in> set high_words then Inr ''High''
                 else if low_s \<in> set normal_words then Inr ''Normal''
                 else
                   (case map_of normal_ranges param of
                      None \<Rightarrow> Inr ''Normal''
                    | Some rg \<Rightarrow>
                        (case range_check rg s of
                           Inl _ \<Rightarrow> Inr ''Normal''
                         | Inr (Some r) \<Rightarrow> Inr r
                         | Inr None \<Rightarrow> Inr ''Normal''))))))"

subsection \<open>The Report Compiler: cell text and result rows\<close>

text \<open>
  \<open>s(val)\<close>: a dash for \<open>None\<close>, the integer for a float that \<open>is_integer\<close>, \<open>str(val)\<close>
  otherwise.
\<close>

fun s :: "pyval \<Rightarrow> exn + string" where
  "s PNone = Inr ''-''"
| "s (PFloat (Fin q) r) =
     (if snd (quotient_of q) = 1 then Inr (str_int (fst (quotient_of q))) else Inr r)"
| "s v = str_py v"

text \<open>
  The loop over \<open>fixed.items()\<close> that appends one row per key that is in
  \<open>normal_ranges\<close>; \<open>result_table\<close> starts it from the header row. An exception of
  \<open>check_flag\<close> or \<open>s\<close> ends the loop and the function.
\<close>

fun result_rows :: "string list list \<Rightarrow> (string \<times> pyval) list \<Rightarrow> exn + string list list" where
  "result_rows table [] = Inr table"
| "result_rows table ((key, val) # items) =
     (if key \<in> set (map fst normal_ranges) then
        (case check_flag key val of
           Inl e \<Rightarrow> Inl e
         | Inr status \<Rightarrow>
             (case s val of
                Inl e \<Rightarrow> Inl e
              | Inr cell \<Rightarrow>
                  result_rows (table @ [[key, cell, dict_get normal_ranges key ''-'', status]])
                    items))
      else result_rows table items)"

definition result_table :: "(string \<times> pyval) list option \<Rightarrow> exn + string list list" where
  "result_table data =
     result_rows [[''Parameter'', ''Value'', ''Normal Range'', ''Status'']] (fixed_of data)"

text \<open>The parameter names of the rows under the header, top to bottom.\<close>

definition row_params :: "string list list \<Rightarrow> string list" where
  "row_params table = map hd (tl table)"

subsection \<open>The Sniffer: \<open>_is_probable_pickle\<close>\<close>

text \<open>
  What a path names: nothing, a file that cannot be opened for reading (of some size),
  or a file with its bytes. \<open>os.path.getsize\<close> and \<open>open\<close> raise OSError where they fail.
\<close>

datatype artifact = NoFile | Unreadable nat | File string

fun path_exists :: "artifact \<Rightarrow> bool" where
  "path_exists NoFile = False"
| "path_exists _ = True"

fun getsize :: "artifact \<Rightarrow> exn + nat" where
  "getsize NoFile = Inl (OSError ''No such file or directory'')"
| "getsize (Unreadable n) = Inr n"
| "getsize (File b) = Inr (length b)"

fun read_head :: "artifact \<Rightarrow> nat \<Rightarrow> exn + string" where
  "read_head NoFile n = Inl (OSError ''No such file or directory'')"
| "read_head (Unreadable _) n = Inl (OSError ''Permission denied'')"
| "read_head (File b) n = Inr (take n b)"

definition binary_magic :: "string list" where
  "binary_magic = [[CHR 0x80], [CHR 0x93], [CHR 0x01]]"

definition text_signatures :: "string list" where
  "text_signatures = [''<!DO'', ''{'', ''<htm'', ''<?xm'']"

definition sniff :: "artifact \<Rightarrow> exn + bool" where
  "sniff f =
     (case getsize f of
        Inl e \<Rightarrow> Inl e
      | Inr sz \<Rightarrow>
          if sz < 100 then Inr False
          else
            (case read_head f 4 of
               Inl e \<Rightarrow> Inl e
             | Inr head \<Rightarrow>
                 if \<exists>m \<in> set binary_magic. prefix m head then Inr True
                 else if \<exists>g \<in> set text_signatures. prefix g head then Inr False
                 else Inr True))"

definition is_probable_pickle :: "artifact \<Rightarrow> bool" where
  "is_probable_pickle f = (case sniff f of Inl _ \<Rightarrow> False | Inr b \<Rightarrow> b)"

subsection \<open>The Loader: \<open>_safe_load\<close>\<close>

text \<open>
  The local names of the running function that hold exceptions. \<open>except E as n:\<close> binds
  \<open>n\<close> for the handler and deletes it when the handler is left (the language reference,
  section 8.4.1: the clause is run as \<open>try: ... finally: del n\<close>); reading a local name
  that is not bound raises UnboundLocalError.
\<close>

type_synonym frame = "string \<Rightarrow> exn option"

definition read_local :: "frame \<Rightarrow> string \<Rightarrow> exn + exn" where
  "read_local fr n = (case fr n of None \<Rightarrow> Inl (UnboundLocalError n) | Some e \<Rightarrow> Inr e)"

text \<open>
  The f-string of the last \<open>raise\<close>, evaluated left to right in the frame of that
  moment.
\<close>

definition failure_message :: "frame \<Rightarrow> string \<Rightarrow> exn + string" where
  "failure_message fr path =
     (case read_local fr ''e_job'' of
        Inl e \<Rightarrow> Inl e
      | Inr ej \<Rightarrow>
          (case str_exn ej of
             Inl e \<Rightarrow> Inl e
           | Inr tj \<Rightarrow>
               (case read_local fr ''e_pickle'' of
                  Inl e \<Rightarrow> Inl e
                | Inr ep \<Rightarrow>
                    (case str_exn ep of
                       Inl e \<Rightarrow> Inl e
                     | Inr tp \<Rightarrow>
                         Inr (''Failed to load model file '' @ path @ '': joblib error: '' @ tj
                              @ ''; pickle error: '' @ tp)))))"

text \<open>
  \<open>joblib_load\<close> and \<open>pickle_load\<close> are the two deserializers, as functions of the bytes
  of the file. Each handler is \<open>except Exception as e\<close> and starts with a \<open>print\<close> that
  formats \<open>e\<close>.
\<close>

definition load_with :: "(string \<Rightarrow> exn + 'm) \<Rightarrow> artifact \<Rightarrow> exn + 'm" where
  "load_with loader f =
     (case f of
        File b \<Rightarrow> loader b
      | Unreadable _ \<Rightarrow> Inl (OSError ''Permission denied'')
      | NoFile \<Rightarrow> Inl (OSError ''No such file or directory''))"

definition safe_load ::
  "(string \<Rightarrow> exn + 'm) \<Rightarrow> (string \<Rightarrow> exn + 'm) \<Rightarrow> (string \<Rightarrow> artifact) \<Rightarrow> string \<Rightarrow> exn + 'm" where
  "safe_load joblib_load pickle_load fs path =
     (if \<not> path_exists (fs path) then Inl (FileNotFoundError path)
      else if \<not> is_probable_pickle (fs path)
      then Inl (ValueError (''File appears invalid or not a binary pickle: '' @ path))
      else
        (case load_with joblib_load (fs path) of
           Inr m \<Rightarrow> Inr m
         | Inl e_job \<Rightarrow>
             if \<not> is_Exception e_job then Inl e_job
             else
               (let in_handler = (Map.empty :: frame)(''e_job'' \<mapsto> e_job)
                in case print_exn e_job of
                     Inl e \<Rightarrow> Inl e
                   | Inr _ \<Rightarrow>
                       (let after_handler = in_handler(''e_job'' := None)
                        in case load_with pickle_load (fs path) of
                             Inr m \<Rightarrow> Inr m
                           | Inl e_pickle \<Rightarrow>
                               if \<not> is_Exception e_pickle then Inl e_pickle
                               else
                                 (case print_exn e_pickle of
                                    Inl e \<Rightarrow> Inl e
                                  | Inr _ \<Rightarrow>
                                      (case failure_message
                                              (after_handler(''e_pickle'' \<mapsto> e_pickle)) path of
                                         Inl e \<Rightarrow> Inl e
                                       | Inr msg \<Rightarrow> Inl (RuntimeError msg)))))))"

subsection \<open>The Normalizer: \<open>safe_predict_proba\<close>\<close>

text \<open>
  What an operation of a model returns: a numpy array (its shape and its elements in
  row-major order, as many as the product of the shape), a Python list of floats, or
  an object with none of the attributes and operations the code uses. The elements are
  finite floats, with the arithmetic of the reals.
\<close>

datatype ndarray = NdArray (shape: "nat list") (buffer: "real list")

datatype pyobj = Array ndarray | PyList "real list" | Opaque

text \<open>A two-dimensional array from its rows, each of \<open>k\<close> elements.\<close>

definition array2 :: "nat \<Rightarrow> real list list \<Rightarrow> ndarray" where
  "array2 k rows = NdArray [length rows, k] (concat rows)"

text \<open>
  A model is \<open>None\<close> or an object; \<open>hasattr(m, name)\<close> is true when the field holds the
  operation, and calling it may raise.
\<close>

record 'x model =
  predict_proba :: "('x \<Rightarrow> exn + pyobj) option"
  decision_function :: "('x \<Rightarrow> exn + pyobj) option"

fun ndim :: "pyobj \<Rightarrow> exn + nat" where
  "ndim (Array a) = Inr (length (shape a))"
| "ndim _ = Inl (AttributeError ''ndim'')"

text \<open>\<open>proba.shape[1]\<close>.\<close>

fun shape1 :: "pyobj \<Rightarrow> exn + nat" where
  "shape1 (Array a) =
     (case shape a of
        _ # k # _ \<Rightarrow> Inr k
      | _ \<Rightarrow> Inl (IndexError ''tuple index out of range''))"
| "shape1 _ = Inl (AttributeError ''shape'')"

text \<open>
  \<open>proba[:, j]\<close>: for a shape \<open>(n, k, ...)\<close> and \<open>j < k\<close> the array of shape \<open>(n, ...)\<close>
  that holds, for each index on the first axis, the sub-array at \<open>j\<close> on the second.
\<close>

fun column :: "pyobj \<Rightarrow> nat \<Rightarrow> exn + ndarray" where
  "column (Array a) j =
     (case shape a of
        n # k # rest \<Rightarrow>
          if j < k
          then Inr (NdArray (n # rest)
                 (concat (map (\<lambda>i. take (prod_list rest)
                                      (drop ((i * k + j) * prod_list rest) (buffer a)))
                           [0..<n])))
          else Inl (IndexError ''index out of bounds'')
      | _ \<Rightarrow> Inl (IndexError ''too many indices for array''))"
| "column _ j = Inl (TypeError ''indices must be integers or slices, not tuple'')"

text \<open>\<open>np.ravel(df)\<close>, read element by element.\<close>

fun ravel :: "pyobj \<Rightarrow> exn + real list" where
  "ravel (Array a) = Inr (buffer a)"
| "ravel (PyList xs) = Inr xs"
| "ravel Opaque = Inl (TypeError ''bad operand type for unary -'')"

text \<open>
  \<open>math.exp\<close> raises OverflowError when its result rounds to infinity, which is from
  the midpoint between the largest binary64 value and \<open>2\<close> to the 1024 on.
\<close>

definition exp_overflows :: "real \<Rightarrow> bool" where
  "exp_overflows x \<longleftrightarrow> 2 ^ 1024 - 2 ^ 970 \<le> exp x"

definition math_exp :: "real \<Rightarrow> exn + real" where
  "math_exp x = (if exp_overflows x then Inl (OverflowError ''math range error'') else Inr (exp x))"

definition sigmoid :: "real \<Rightarrow> exn + real" where
  "sigmoid x = (case math_exp (- x) of Inl e \<Rightarrow> Inl e | Inr y \<Rightarrow> Inr (1 / (1 + y)))"

text \<open>The list comprehension: the first exception ends it.\<close>

fun sigmoid_all :: "real list \<Rightarrow> exn + real list" where
  "sigmoid_all [] = Inr []"
| "sigmoid_all (v # vs) =
     (case sigmoid v of
        Inl e \<Rightarrow> Inl e
      | Inr y \<Rightarrow> (case sigmoid_all vs of Inl e \<Rightarrow> Inl e | Inr ys \<Rightarrow> Inr (y # ys)))"

text \<open>What the function returns when it is not \<open>None\<close>: an array or a list of floats.\<close>

datatype proba = Column ndarray | Sigmoids "real list"

text \<open>
  The body of the \<open>try\<close>: \<open>Inl\<close> is an exception raised inside it, \<open>Inr r\<close> the value it
  returns, \<open>None\<close> also where the end of the block is reached.
\<close>

definition predict_body :: "'x model option \<Rightarrow> 'x \<Rightarrow> exn + proba option" where
  "predict_body m X =
     (case m of
        None \<Rightarrow> Inr None
      | Some mdl \<Rightarrow>
          (case predict_proba mdl of
             Some op_proba \<Rightarrow>
               (case op_proba X of
                  Inl e \<Rightarrow> Inl e
                | Inr proba \<Rightarrow>
                    (case ndim proba of
                       Inl e \<Rightarrow> Inl e
                     | Inr nd \<Rightarrow>
                         (case (if nd = 2 then map_sum id (\<lambda>k. 2 \<le> k) (shape1 proba)
                                else Inr False) of
                            Inl e \<Rightarrow> Inl e
                          | Inr two_columns \<Rightarrow>
                              map_sum id (\<lambda>c. Some (Column c))
                                (column proba (if two_columns then 1 else 0)))))
           | None \<Rightarrow>
               (case decision_function mdl of
                  Some op_df \<Rightarrow>
                    (case op_df X of
                       Inl e \<Rightarrow> Inl e
                     | Inr df \<Rightarrow>
                         (case ravel df of
                            Inl e \<Rightarrow> Inl e
                          | Inr vs \<Rightarrow> map_sum id (\<lambda>ys. Some (Sigmoids ys)) (sigmoid_all vs)))
                | None \<Rightarrow> Inr None)))"

text \<open>
  The whole function. The handler is \<open>except Exception as e\<close>: an exception of the body
  that is not an \<open>Exception\<close> leaves the function; for one that is, the handler prints
  it, which raises when it cannot be formatted, and returns \<open>None\<close>.
\<close>

definition safe_predict_proba :: "'x model option \<Rightarrow> 'x \<Rightarrow> exn + proba option" where
  "safe_predict_proba m X =
     (case predict_body m X of
        Inr r \<Rightarrow> Inr r
      | Inl e \<Rightarrow>
          if \<not> is_Exception e then Inl e
          else (case print_exn e of Inl e' \<Rightarrow> Inl e' | Inr _ \<Rightarrow> Inr None))"

subsection \<open>Notions used to state the properties\<close>

text \<open>The keys of \<open>rename_keys\<close> start with a small letter, the display names do not.\<close>

definition starts_lower :: "string \<Rightarrow> bool" where
  "starts_lower k \<longleftrightarrow> (case k of [] \<Rightarrow> False | c # _ \<Rightarrow> 97 \<le> (of_char c :: nat))"

text \<open>
  The order of the rows as the specification words it: the keys of the canonicalized
  mapping in the order in which \<open>normal_ranges\<close> declares them.
\<close>

definition vocabulary_order :: "(string \<times> 'v) list \<Rightarrow> string list" where
  "vocabulary_order fixed = filter (\<lambda>k. k \<in> set (map fst fixed)) (map fst normal_ranges)"

text \<open>
  The two numeric forms of a range text, as \<open>check_flag\<close> reads them: an upper bound
  \<open>< X\<close>, and an interval \<open>low - high\<close>; and the texts that the string heuristics
  decide.
\<close>

definition upper_bound_form :: "string \<Rightarrow> pyfloat \<Rightarrow> bool" where
  "upper_bound_form rg X \<longleftrightarrow>
     CHR ''<'' \<in> set rg \<and> float_py (strip (remove_char CHR ''<'' rg)) = Inr X"

definition interval_form :: "string \<Rightarrow> pyfloat \<Rightarrow> pyfloat \<Rightarrow> bool" where
  "interval_form rg lo hi \<longleftrightarrow>
     CHR ''<'' \<notin> set rg \<and> CHR ''-'' \<in> set rg \<and>
     (case split_on CHR ''-'' rg of
        [p0, p1] \<Rightarrow> float_py (strip p0) = Inr lo \<and> float_py (strip p1) = Inr hi
      | _ \<Rightarrow> False)"

definition categorical :: "string \<Rightarrow> bool" where
  "categorical t \<longleftrightarrow> lower t \<in> set high_words \<or> lower t \<in> set normal_words"

text \<open>
  An operation that gives the same outcome on every argument; an exception that
  \<open>except Exception\<close> catches and whose handler can print it; and the exceptions that
  the operation of a model which \<open>safe_predict_proba\<close> calls raises on an input.
\<close>

definition returns :: "'a \<Rightarrow> 'x \<Rightarrow> 'a" where
  "returns r x = r"

definition catchable :: "exn \<Rightarrow> bool" where
  "catchable e \<longleftrightarrow> is_Exception e \<and> print_exn e = Inr ()"

definition model_raises :: "'x model option \<Rightarrow> 'x \<Rightarrow> exn \<Rightarrow> bool" where
  "model_raises m X e \<longleftrightarrow>
     (case m of
        None \<Rightarrow> False
      | Some mdl \<Rightarrow>
          (case predict_proba mdl of
             Some op_proba \<Rightarrow> op_proba X = Inl e
           | None \<Rightarrow>
               (case decision_function mdl of
                  Some op_df \<Rightarrow> op_df X = Inl e
                | None \<Rightarrow> False)))"

text \<open>The logistic function, on the reals.\<close>

definition logistic :: "real \<Rightarrow> real" where
  "logistic x = 1 / (1 + exp (- x))"

section \<open>Properties\<close>

subsection \<open>Strings\<close>

lemma strip_all_space: "\<forall>c \<in> set t. isspace c \<Longrightarrow> strip t = []"
proof -
  assume "\<forall>c \<in> set t. isspace c"
  then have d: "dropWhile isspace t = []" by simp
  show ?thesis unfolding strip_def d by simp
qed

lemma dropWhile_hd_id: "t \<noteq> [] \<Longrightarrow> \<not> P (hd t) \<Longrightarrow> dropWhile P t = t"
  by (cases t) simp_all

lemma strip_no_space_ends:
  assumes "t \<noteq> []" "\<not> isspace (hd t)" "\<not> isspace (last t)"
  shows "strip t = t"
proof -
  have a: "dropWhile isspace t = t" using assms by (simp add: dropWhile_hd_id)
  have "hd (rev t) = last t" using assms(1) by (simp add: hd_rev)
  then have "dropWhile isspace (rev t) = rev t" using assms by (simp add: dropWhile_hd_id)
  then show ?thesis using a by (simp add: strip_def)
qed

lemma isspace_lower: "isspace c \<Longrightarrow> lower_char c = c"
  by (auto simp: isspace_def lower_char_def Let_def)

lemma not_space_y_s: "\<not> isspace CHR ''y''" "\<not> isspace CHR ''s''"
  by (simp_all add: isspace_def)

lemma lower_yes_strip: "lower t = ''yes'' \<Longrightarrow> strip t = t"
proof -
  assume h: "lower t = ''yes''"
  then obtain a b c where t: "t = [a, b, c]" and a: "lower_char a = CHR ''y''"
    and c: "lower_char c = CHR ''s''"
    by (auto simp: lower_def)
  have "\<not> isspace a" using a isspace_lower not_space_y_s by metis
  moreover have "\<not> isspace c" using c isspace_lower not_space_y_s by metis
  ultimately show ?thesis using t by (simp add: strip_no_space_ends)
qed

subsection \<open>Dictionaries and the Canonicalizer\<close>

lemma keys_dict_set:
  "map fst (dict_set d k v) = (if k \<in> set (map fst d) then map fst d else map fst d @ [k])"
  by (induction d k v rule: dict_set.induct) auto

lemma map_of_dict_set: "map_of (dict_set d k v) = (map_of d)(k \<mapsto> v)"
  by (induction d k v rule: dict_set.induct) (auto simp: fun_eq_iff)

lemma distinct_dict_set: "distinct (map fst d) \<Longrightarrow> distinct (map fst (dict_set d k v))"
  by (simp add: keys_dict_set)

lemma dict_set_new: "k \<notin> set (map fst d) \<Longrightarrow> dict_set d k v = d @ [(k, v)]"
  by (induction d k v rule: dict_set.induct) auto

lemma distinct_rename_into:
  "distinct (map fst fixed) \<Longrightarrow> distinct (map fst (rename_into fixed items))"
  by (induction fixed items rule: rename_into.induct) (simp_all add: distinct_dict_set)

lemma map_of_rename_into:
  "map_of (rename_into fixed items) =
     map_of (rev (map (\<lambda>(k, v). (canonicalize k, v)) items) @ fixed)"
proof (induction fixed items rule: rename_into.induct)
  case (1 fixed)
  then show ?case by simp
next
  case (2 fixed k v items)
  then show ?case by (simp add: map_of_dict_set fun_eq_iff map_add_def split: option.splits)
qed

lemma keys_rename_into:
  "set (map fst (rename_into fixed items)) =
     set (map fst fixed) \<union> canonicalize ` set (map fst items)"
  by (induction fixed items rule: rename_into.induct) (auto simp: keys_dict_set)

lemma rename_into_canonical:
  "distinct (map fst (acc @ items)) \<Longrightarrow> \<forall>k \<in> set (map fst items). canonicalize k = k \<Longrightarrow>
   rename_into acc items = acc @ items"
proof (induction acc items rule: rename_into.induct)
  case (1 fixed)
  then show ?case by simp
next
  case (2 fixed k v items)
  have ck: "canonicalize k = k" using 2(3) by simp
  have nk: "k \<notin> set (map fst fixed)" using 2(2) by auto
  have ds: "dict_set fixed (canonicalize k) v = fixed @ [(k, v)]"
    using ck nk by (simp add: dict_set_new)
  have "rename_into (fixed @ [(k, v)]) items = (fixed @ [(k, v)]) @ items"
    using 2(1)[unfolded ds] 2(2) 2(3) by simp
  then show ?case using ds by simp
qed

lemma rename_keys_lower: "\<forall>k \<in> set (map fst rename_keys). starts_lower k"
  by (simp add: rename_keys_def starts_lower_def)

lemma rename_values_upper: "\<forall>v \<in> set (map snd rename_keys). \<not> starts_lower v"
  by (simp add: rename_keys_def starts_lower_def)

lemma normal_ranges_upper: "\<forall>v \<in> set (map fst normal_ranges). \<not> starts_lower v"
  by (simp add: normal_ranges_def starts_lower_def)

lemma not_lower_unmapped: "\<not> starts_lower v \<Longrightarrow> map_of rename_keys v = None"
  using rename_keys_lower by (force simp: map_of_eq_None_iff)

lemma canonicalize_unmapped: "map_of rename_keys k = None \<Longrightarrow> canonicalize k = k"
  by (simp add: canonicalize_def dict_get_def)

lemma canonicalize_idem: "canonicalize (canonicalize k) = canonicalize k"
proof (cases "map_of rename_keys k")
  case None
  then show ?thesis by (simp add: canonicalize_unmapped)
next
  case (Some v)
  then have "v \<in> set (map snd rename_keys)"
    by (metis map_of_SomeD image_eqI set_map snd_conv)
  then have "map_of rename_keys v = None"
    using rename_values_upper not_lower_unmapped by blast
  then show ?thesis using Some by (simp add: canonicalize_def dict_get_def)
qed

lemma canonicalize_range_key: "k \<in> set (map fst normal_ranges) \<Longrightarrow> canonicalize k = k"
  using normal_ranges_upper not_lower_unmapped canonicalize_unmapped by blast

lemma canonicalize_Hypertension:
  "canonicalize k = ''Hypertension'' \<longleftrightarrow> k = ''hyt'' \<or> k = ''htn'' \<or> k = ''Hypertension''"
  by (auto simp: canonicalize_def dict_get_def rename_keys_def split: option.splits if_splits)

lemma fixed_of_idem: "fixed_of (Some (fixed_of data)) = fixed_of data"
proof -
  let ?f = "fixed_of data"
  have d: "distinct (map fst ?f)" by (simp add: fixed_of_def distinct_rename_into)
  have "\<forall>k \<in> set (map fst ?f). canonicalize k = k"
  proof
    fix k assume "k \<in> set (map fst ?f)"
    then have "k \<in> canonicalize ` set (map fst (case data of None \<Rightarrow> [] | Some d \<Rightarrow> d))"
      unfolding fixed_of_def keys_rename_into by simp
    then obtain k0 where "k = canonicalize k0" by blast
    then show "canonicalize k = k" by (simp add: canonicalize_idem)
  qed
  then have "rename_into [] ?f = [] @ ?f" using d by (intro rename_into_canonical) simp_all
  then show ?thesis by (simp add: fixed_of_def)
qed

subsection \<open>The Sniffer\<close>

lemma sniff_small: "getsize f = Inr n \<Longrightarrow> n < 100 \<Longrightarrow> \<not> is_probable_pickle f"
  by (simp add: is_probable_pickle_def sniff_def)

lemma signature_first: "g \<in> set text_signatures \<Longrightarrow> hd g = CHR ''<'' \<or> hd g = CHR ''{''"
  by (auto simp: text_signatures_def)

lemma signature_short: "g \<in> set text_signatures \<Longrightarrow> g \<noteq> [] \<and> length g \<le> 4"
  by (auto simp: text_signatures_def)

lemma magic_first:
  "m \<in> set binary_magic \<Longrightarrow> m \<noteq> [] \<and> hd m \<noteq> CHR ''<'' \<and> hd m \<noteq> CHR ''{''"
  by (auto simp: binary_magic_def)

lemma prefix_hd: "prefix g h \<Longrightarrow> g \<noteq> [] \<Longrightarrow> hd h = hd g"
  by (auto simp: prefix_def)

lemma prefix_take: "prefix g b \<Longrightarrow> length g \<le> n \<Longrightarrow> prefix g (take n b)"
  by (auto simp: prefix_def)

lemma sniff_signature:
  assumes g: "g \<in> set text_signatures" and p: "prefix g b"
  shows "\<not> is_probable_pickle (File b)"
proof (cases "length b < 100")
  case True
  then show ?thesis by (simp add: is_probable_pickle_def sniff_def)
next
  case False
  have pg: "prefix g (take 4 b)" using p signature_short[OF g] by (simp add: prefix_take)
  have hd4: "hd (take 4 b) = hd g" using pg signature_short[OF g] by (simp add: prefix_hd)
  have no_magic: "\<not> (\<exists>m \<in> set binary_magic. prefix m (take 4 b))"
  proof
    assume "\<exists>m \<in> set binary_magic. prefix m (take 4 b)"
    then obtain m where m: "m \<in> set binary_magic" and pm: "prefix m (take 4 b)" by blast
    have "hd (take 4 b) = hd m" using pm magic_first[OF m] by (simp add: prefix_hd)
    then show False using hd4 magic_first[OF m] signature_first[OF g] by simp
  qed
  have "\<exists>g \<in> set text_signatures. prefix g (take 4 b)" using g pg by blast
  then show ?thesis using False no_magic by (simp add: is_probable_pickle_def sniff_def)
qed

subsection \<open>Rounding to binary64\<close>

lemma bits_bounds: "0 < n \<Longrightarrow> 2 ^ (bits n - 1) \<le> n \<and> n < 2 ^ bits n"
proof (induction n rule: bits.induct)
  case (1 n)
  show ?case
  proof (cases "n div 2 = 0")
    case True
    then have "n = 1" using 1(2) by (auto simp: div_eq_0_iff)
    then show ?thesis by (simp add: bits.simps)
  next
    case False
    then have ih: "2 ^ (bits (n div 2) - 1) \<le> n div 2" "n div 2 < 2 ^ bits (n div 2)"
      using 1 by auto
    have bn: "bits n = Suc (bits (n div 2))" using 1(2) by (subst bits.simps) simp
    have bpos: "0 < bits (n div 2)" using False by (subst bits.simps) simp
    have "2 * 2 ^ (bits (n div 2) - 1) \<le> n" using ih(1) by linarith
    moreover have "2 * 2 ^ (bits (n div 2) - 1) = (2::nat) ^ bits (n div 2)"
      using bpos by (cases "bits (n div 2)") simp_all
    moreover have "n < 2 * 2 ^ bits (n div 2)" using ih(2) by linarith
    ultimately show ?thesis by (simp add: bn)
  qed
qed

lemma round_half_even_int: "round_half_even (of_int m) = m"
  by (simp add: round_half_even_def Let_def)

text \<open>A positive integer below \<open>2\<close> to the 53 is a binary64 value: rounding keeps it.\<close>

lemma to_double_nat:
  assumes "0 < n" "n < 2 ^ 53"
  shows "to_double (of_nat n) = Fin (of_nat n)"
proof -
  have b: "2 ^ (bits n - 1) \<le> n" "n < 2 ^ bits n" using bits_bounds[OF assms(1)] by auto
  have bpos: "1 \<le> bits n" using assms(1) by (subst bits.simps) simp
  have lt: "(2::nat) ^ (bits n - 1) < 2 ^ 53" using b(1) assms(2) by linarith
  have "bits n - 1 < 53"
  proof (rule ccontr)
    assume "\<not> bits n - 1 < 53"
    then have "53 \<le> bits n - 1" by simp
    then have "(2::nat) ^ 53 \<le> 2 ^ (bits n - 1)" by (rule power_increasing) simp
    with lt show False by linarith
  qed
  then have b53: "bits n \<le> 53" by simp
  have q: "quotient_of (of_nat n) = (int n, 1)" using quotient_of_int[of "int n"] by simp
  have b1: "bits (Suc 0) = 1" by (simp add: bits.simps)
  define k where "k = int (bits n) - 1"
  have kdef: "int (bits (nat (fst (quotient_of \<bar>of_nat n :: rat\<bar>)))) -
      int (bits (nat (snd (quotient_of \<bar>of_nat n :: rat\<bar>)))) = k"
    by (simp add: q b1 k_def)
  have k0: "0 \<le> k" using bpos by (simp add: k_def)
  have p: "pow2 k = 2 ^ (bits n - 1)"
    using k0 bpos by (simp add: pow2_def k_def nat_diff_distrib)
  have le: "pow2 k \<le> \<bar>of_nat n\<bar>"
  proof -
    have "(of_nat (2 ^ (bits n - 1)) :: rat) \<le> of_nat n" using b(1) of_nat_le_iff by blast
    then show ?thesis by (simp add: p)
  qed
  have mx: "max k (- 1022) = k" using k0 by simp
  have u: "pow2 (k - 52) = 1 / 2 ^ (53 - bits n)"
  proof -
    have "k - 52 \<le> 0" using b53 by (simp add: k_def)
    moreover have "nat (- (k - 52)) = 53 - bits n" using b53 by (simp add: k_def)
    ultimately show ?thesis
      by (cases "k - 52 = 0") (simp_all add: pow2_def)
  qed
  have au: "\<bar>of_nat n :: rat\<bar> / pow2 (k - 52) = of_int (int n * 2 ^ (53 - bits n))"
    by (simp add: u)
  have r: "of_int (round_half_even (\<bar>of_nat n :: rat\<bar> / pow2 (k - 52))) * pow2 (k - 52)
      = (of_nat n :: rat)"
    unfolding au round_half_even_int by (simp add: u)
  have small: "\<not> pow2 1024 \<le> (of_nat n :: rat)"
  proof -
    have "(of_nat n :: rat) < of_nat (2 ^ 53)" using assms(2) of_nat_less_iff by blast
    moreover have "(of_nat (2 ^ 53) :: rat) \<le> 2 ^ 1024" by simp
    ultimately show ?thesis by (simp add: pow2_def)
  qed
  have n0: "(of_nat n :: rat) \<noteq> 0" "0 < (of_nat n :: rat)" using assms(1) by simp_all
  show ?thesis
    unfolding to_double_def Let_def kdef
    using le mx r small n0 by (simp only: if_True if_False refl)
qed

subsection \<open>Reading decimal integers, and the Flagger on numbers\<close>

lemma is_digit_chars:
  assumes "is_digit c"
  shows "\<not> isspace c" "c \<noteq> CHR ''-''" "c \<noteq> CHR ''+''" "c \<noteq> CHR ''.''" "c \<noteq> CHR ''_''"
    "\<not> is_exp_mark c" "lower_char c = c"
  using assms by (auto simp: is_digit_def isspace_def is_exp_mark_def lower_char_def Let_def)

lemma no_double_underscore_digits: "\<forall>c \<in> set t. is_digit c \<Longrightarrow> no_double_underscore t"
  by (induction t rule: no_double_underscore.induct) (auto dest: is_digit_chars(5))

lemma digitpart_digits: "t \<noteq> [] \<Longrightarrow> \<forall>c \<in> set t. is_digit c \<Longrightarrow> digitpart t"
  by (simp add: digitpart_def no_double_underscore_digits)

lemma takeWhile_all: "\<forall>c \<in> set t. P c \<Longrightarrow> takeWhile P t = t \<and> dropWhile P t = []"
  by (simp add: takeWhile_eq_all_conv)

lemma parse_number_digits:
  assumes "t \<noteq> []" "\<forall>c \<in> set t. is_digit c"
  shows "parse_number t = Some (of_nat (digits_value t))"
proof -
  have e: "takeWhile (\<lambda>c. \<not> is_exp_mark c) t = t" "dropWhile (\<lambda>c. \<not> is_exp_mark c) t = []"
    using assms(2) is_digit_chars(6) by (simp_all add: takeWhile_eq_all_conv)
  have p: "takeWhile (\<lambda>c. c \<noteq> CHR ''.'') t = t" "dropWhile (\<lambda>c. c \<noteq> CHR ''.'') t = []"
    using assms(2) is_digit_chars(4) by (simp_all add: takeWhile_eq_all_conv)
  have m: "parse_mantissa t = Some (digits_value t, 0)"
    unfolding parse_mantissa_def Let_def p using digitpart_digits[OF assms] by simp
  show ?thesis
    unfolding parse_number_def Let_def e m by (simp add: decimal_value_def)
qed

lemma lower_digits: "\<forall>c \<in> set t. is_digit c \<Longrightarrow> lower t = t"
  by (simp add: lower_def is_digit_chars(7) map_idI)

lemma not_digit_letters: "\<not> is_digit CHR ''i''" "\<not> is_digit CHR ''n''"
  by (simp_all add: is_digit_def)

lemma float_py_digits:
  assumes "t \<noteq> []" "\<forall>c \<in> set t. is_digit c"
  shows "float_py t = Inr (to_double (of_nat (digits_value t)))"
proof -
  have hl: "is_digit (hd t)" "is_digit (last t)" using assms by simp_all
  have st: "strip t = t" using assms(1) hl is_digit_chars(1) by (simp add: strip_no_space_ends)
  have sg: "split_sign t = (False, t)"
    using assms(1) hl(1) is_digit_chars(2,3) by (cases t) (auto simp: split_sign_def)
  have lw: "lower t = t" using assms(2) by (rule lower_digits)
  have ni: "t \<noteq> ''inf''" "t \<noteq> ''infinity''" "t \<noteq> ''nan''"
    using assms(2) not_digit_letters by auto
  show ?thesis
    unfolding float_py_def st sg using lw ni parse_number_digits[OF assms] by simp
qed


lemma digit_char: "k < 10 \<Longrightarrow> is_digit (char_of (48 + k)) \<and> digit_val (char_of (48 + k)) = k"
  by (simp add: is_digit_def digit_val_def)

lemma digits_of_nat_digits: "digits_of_nat n \<noteq> [] \<and> (\<forall>c \<in> set (digits_of_nat n). is_digit c)"
proof (induction n rule: digits_of_nat.induct)
  case (1 n)
  show ?case
  proof (cases "n < 10")
    case True
    then show ?thesis by (subst (1 2) digits_of_nat.simps) (simp add: digit_char)
  next
    case False
    then show ?thesis using 1 by (subst (1 2) digits_of_nat.simps) (simp add: digit_char)
  qed
qed

lemma digits_value_snoc:
  "is_digit c \<Longrightarrow> digits_value (t @ [c]) = 10 * digits_value t + digit_val c"
  by (simp add: digits_value_def)

lemma digits_value_of_nat: "digits_value (digits_of_nat n) = n"
proof (induction n rule: digits_of_nat.induct)
  case (1 n)
  show ?case
  proof (cases "n < 10")
    case True
    then show ?thesis
      by (subst digits_of_nat.simps) (simp add: digits_value_def digit_char)
  next
    case False
    then have "digits_value (digits_of_nat (n div 10)) = n div 10" using 1 by simp
    then show ?thesis using False
      by (subst digits_of_nat.simps) (simp add: digits_value_snoc digit_char)
  qed
qed

lemma float_py_empty: "float_py [] \<noteq> Inr v"
  by (simp add: float_py_def strip_def split_sign_def lower_def parse_number_def
      parse_mantissa_def digitpart_def)

lemma check_flag_numeric:
  assumes rg: "map_of normal_ranges param = Some rg"
    and v: "val \<noteq> PNone" "str_py val = Inr sv" "\<not> categorical (strip sv)"
      "float_py (strip sv) = Inr v"
  shows "upper_bound_form rg X \<Longrightarrow>
           check_flag param val = Inr (if float_gt v X then ''High'' else ''Normal'')"
    and "interval_form rg lo hi \<Longrightarrow>
           check_flag param val =
             Inr (if float_lt v lo then ''Low'' else if float_gt v hi then ''High''
                  else ''Normal'')"
proof -
  have ne: "strip sv \<noteq> []" using v(4) float_py_empty by metis
  have cf: "check_flag param val =
      (case range_check rg (strip sv) of Inl _ \<Rightarrow> Inr ''Normal''
        | Inr (Some r) \<Rightarrow> Inr r | Inr None \<Rightarrow> Inr ''Normal'')"
    using rg v(1,2,3) ne by (simp add: check_flag_def categorical_def Let_def)
  show "upper_bound_form rg X \<Longrightarrow>
           check_flag param val = Inr (if float_gt v X then ''High'' else ''Normal'')"
    unfolding cf using v(4) by (simp add: upper_bound_form_def range_check_def)
  show "interval_form rg lo hi \<Longrightarrow>
           check_flag param val =
             Inr (if float_lt v lo then ''Low'' else if float_gt v hi then ''High''
                  else ''Normal'')"
    unfolding cf using v(4)
    by (auto simp: interval_form_def range_check_def split: list.splits)
qed

lemma float_py_nat:
  assumes "0 < n" "n < 2 ^ 53"
  shows "float_py (digits_of_nat n) = Inr (Fin (of_nat n))"
  using float_py_digits[of "digits_of_nat n"] digits_of_nat_digits[of n]
    digits_value_of_nat[of n] to_double_nat[OF assms] by simp

lemma digit_words: "digits_value ''1'' = 1" "digits_value ''0'' = 0"
  by (simp_all add: digits_value_def is_digit_def digit_val_def)

lemma digits_not_categorical:
  assumes "2 \<le> n"
  shows "\<not> categorical (digits_of_nat n)"
proof
  let ?t = "digits_of_nat n"
  assume c: "categorical ?t"
  have d: "\<forall>c \<in> set ?t. is_digit c" using digits_of_nat_digits by blast
  then have "lower ?t = ?t" by (rule lower_digits)
  then have "?t \<in> set high_words \<or> ?t \<in> set normal_words" using c by (simp add: categorical_def)
  then have "?t = ''1'' \<or> ?t = ''0''"
    using d by (auto simp: high_words_def normal_words_def is_digit_def)
  then have "digits_value ?t = 1 \<or> digits_value ?t = 0" using digit_words by auto
  then show False using assms by (simp add: digits_value_of_nat)
qed

lemma strip_digits: "strip (digits_of_nat n) = digits_of_nat n"
proof -
  have "is_digit (hd (digits_of_nat n))" "is_digit (last (digits_of_nat n))"
    using digits_of_nat_digits[of n] by simp_all
  then show ?thesis using digits_of_nat_digits[of n] is_digit_chars(1)
    by (simp add: strip_no_space_ends)
qed

lemma check_flag_int:
  assumes i: "2 \<le> i" "i < 2 ^ 53" and rg: "map_of normal_ranges param = Some rg"
  shows "upper_bound_form rg (Fin X) \<Longrightarrow>
           check_flag param (PInt i) = Inr (if X < of_int i then ''High'' else ''Normal'')"
    and "interval_form rg (Fin lo) (Fin hi) \<Longrightarrow>
           check_flag param (PInt i) =
             Inr (if of_int i < lo then ''Low'' else if hi < of_int i then ''High''
                  else ''Normal'')"
proof -
  let ?t = "digits_of_nat (nat i)"
  have s: "str_py (PInt i) = Inr ?t" using i(1) by (simp add: str_int_def)
  have n: "0 < nat i" "nat i < 2 ^ 53" "2 \<le> nat i" using i by simp_all
  have nc: "\<not> categorical (strip ?t)" using digits_not_categorical[OF n(3)] by (simp add: strip_digits)
  have "(of_nat (nat i) :: rat) = of_int i" using i(1) by simp
  then have f: "float_py (strip ?t) = Inr (Fin (of_int i))"
    using float_py_nat[OF n(1,2)] by (simp add: strip_digits)
  show "upper_bound_form rg (Fin X) \<Longrightarrow>
           check_flag param (PInt i) = Inr (if X < of_int i then ''High'' else ''Normal'')"
    using check_flag_numeric(1)[OF rg _ s nc f] by (simp add: float_gt_def)
  show "interval_form rg (Fin lo) (Fin hi) \<Longrightarrow>
           check_flag param (PInt i) =
             Inr (if of_int i < lo then ''Low'' else if hi < of_int i then ''High''
                  else ''Normal'')"
    using check_flag_numeric(2)[OF rg _ s nc f] by (simp add: float_gt_def)
qed

lemma digit_chars_eval:
  "char_of (48::nat) = CHR ''0''" "char_of (49::nat) = CHR ''1''" "char_of (50::nat) = CHR ''2''"
  "char_of (51::nat) = CHR ''3''" "char_of (52::nat) = CHR ''4''" "char_of (53::nat) = CHR ''5''"
  "char_of (54::nat) = CHR ''6''" "char_of (55::nat) = CHR ''7''" "char_of (56::nat) = CHR ''8''"
  "char_of (57::nat) = CHR ''9''"
  by code_simp+

lemma digits_200: "digits_of_nat 200 = ''200''" "digits_of_nat 90 = ''90''" "digits_of_nat 120 = ''120''"
  "digits_of_nat 100 = ''100''"
  by (simp_all add: digits_of_nat.simps digit_chars_eval)

lemma float_py_200: "float_py ''200'' = Inr (Fin 200)"
  using float_py_nat[of 200] by (simp add: digits_200)

lemma float_py_100: "float_py ''100'' = Inr (Fin 100)"
  using float_py_nat[of 100] by (simp add: digits_200)

lemma float_py_90: "float_py ''90'' = Inr (Fin 90)"
  using float_py_nat[of 90] by (simp add: digits_200)

lemma float_py_120: "float_py ''120'' = Inr (Fin 120)"
  using float_py_nat[of 120] by (simp add: digits_200)

lemma form_lt_200: "upper_bound_form ''< 200'' (Fin 200)"
  by (simp add: upper_bound_form_def remove_char_def strip_def isspace_def float_py_200)

lemma form_90_120: "interval_form ''90 - 120'' (Fin 90) (Fin 120)"
  by (simp add: interval_form_def strip_def isspace_def float_py_90 float_py_120)

lemma range_entries:
  "map_of normal_ranges ''Cholesterol'' = Some ''< 200''"
  "map_of normal_ranges ''Resting Blood Pressure'' = Some ''90 - 120''"
  by (simp_all add: normal_ranges_def)

lemma more_digits: "digits_of_nat 250 = ''250''" "digits_of_nat 150 = ''150''" "digits_of_nat 30 = ''30''"
  by (simp_all add: digits_of_nat.simps digit_chars_eval)

lemma float_py_250: "float_py ''250'' = Inr (Fin 250)"
  using float_py_nat[of 250] by (simp add: more_digits)

lemma float_py_150: "float_py ''150'' = Inr (Fin 150)"
  using float_py_nat[of 150] by (simp add: more_digits)

lemma float_py_30: "float_py ''30'' = Inr (Fin 30)"
  using float_py_nat[of 30] by (simp add: more_digits)

lemma form_90_120_tight: "interval_form ''90-120'' (Fin 90) (Fin 120)"
  by (simp add: interval_form_def strip_def isspace_def float_py_90 float_py_120)

lemma flag_examples:
  "check_flag ''Cholesterol'' (PInt 250) = Inr ''High''"
  "check_flag ''Cholesterol'' (PInt 150) = Inr ''Normal''"
  "check_flag ''Resting Blood Pressure'' (PInt 30) = Inr ''Low''"
  "check_flag ''Resting Blood Pressure'' (PInt 200) = Inr ''High''"
  "check_flag ''Resting Blood Pressure'' (PInt 100) = Inr ''Normal''"
  using check_flag_int(1)[OF _ _ range_entries(1) form_lt_200, of 250]
    check_flag_int(1)[OF _ _ range_entries(1) form_lt_200, of 150]
    check_flag_int(2)[OF _ _ range_entries(2) form_90_120, of 30]
    check_flag_int(2)[OF _ _ range_entries(2) form_90_120, of 200]
    check_flag_int(2)[OF _ _ range_entries(2) form_90_120, of 100]
  by simp_all

lemma range_check_examples:
  "range_check ''< 200'' ''250'' = Inr (Some ''High'')"
  "range_check ''< 200'' ''150'' = Inr (Some ''Normal'')"
  "range_check ''90-120'' ''30'' = Inr (Some ''Low'')"
  "range_check ''90-120'' ''200'' = Inr (Some ''High'')"
  "range_check ''90-120'' ''100'' = Inr (Some ''Normal'')"
  using form_lt_200 form_90_120_tight
  by (simp_all add: range_check_def upper_bound_form_def interval_form_def float_gt_def
      float_py_250 float_py_150 float_py_30 float_py_200 float_py_100 split: list.splits)

lemma not_categorical_250: "\<not> categorical (strip ''250'')"
  using digits_not_categorical[of 250] strip_digits[of 250] by (simp add: more_digits)

lemma strip_250: "strip ''250'' = ''250''"
  using strip_digits[of 250] by (simp add: more_digits)

subsection \<open>The result rows and the last value of a key\<close>

lemma result_rows_params:
  "result_rows table items = Inr table' \<Longrightarrow>
   map hd table' = map hd table @ filter (\<lambda>k. k \<in> set (map fst normal_ranges)) (map fst items)"
proof (induction table items rule: result_rows.induct)
  case (1 table)
  then show ?case by simp
next
  case (2 table key val items)
  then show ?case by (auto split: if_splits sum.splits)
qed

lemma result_table_order:
  assumes "result_table data = Inr table"
  shows "row_params table =
    filter (\<lambda>k. k \<in> set (map fst normal_ranges)) (map fst (fixed_of data))"
proof -
  have "map hd table = ''Parameter'' #
      filter (\<lambda>k. k \<in> set (map fst normal_ranges)) (map fst (fixed_of data))"
    using result_rows_params[OF assms[unfolded result_table_def]] by simp
  then have "tl (map hd table) =
      filter (\<lambda>k. k \<in> set (map fst normal_ranges)) (map fst (fixed_of data))" by simp
  then show ?thesis by (simp add: row_params_def map_tl)
qed

lemma check_flag_str: "str_py v = Inr t \<Longrightarrow> \<exists>r. check_flag p v = Inr r"
  by (simp add: check_flag_def Let_def split: option.splits sum.splits)

lemma s_str: "str_py v = Inr t \<Longrightarrow> \<exists>r. s v = Inr r"
  by (cases v rule: s.cases) auto

lemma result_rows_succeeds:
  "\<forall>v \<in> set (map snd items). \<exists>t. str_py v = Inr t \<Longrightarrow> \<exists>table'. result_rows table items = Inr table'"
proof (induction table items rule: result_rows.induct)
  case (1 table)
  then show ?case by simp
next
  case (2 table key val items)
  obtain t where t: "str_py val = Inr t" using 2(3) by auto
  obtain st where st: "check_flag key val = Inr st" using check_flag_str[OF t] by blast
  obtain cell where cell: "s val = Inr cell" using s_str[OF t] by blast
  show ?case
  proof (cases "key \<in> set (map fst normal_ranges)")
    case True
    then show ?thesis using 2(1)[OF True st cell] 2(3) st cell by simp
  next
    case False
    then show ?thesis using 2(2)[OF False] 2(3) by simp
  qed
qed

lemma values_dict_set: "set (map snd (dict_set d k v)) \<subseteq> insert v (set (map snd d))"
  by (induction d k v rule: dict_set.induct) auto

lemma values_rename_into:
  "set (map snd (rename_into fixed items)) \<subseteq> set (map snd fixed) \<union> set (map snd items)"
proof (induction fixed items rule: rename_into.induct)
  case (1 fixed)
  then show ?case by simp
next
  case (2 fixed k v items)
  then show ?case using values_dict_set[of fixed "canonicalize k" v] by auto
qed

lemma result_table_succeeds:
  assumes "\<forall>v \<in> set (map snd d). \<exists>t. str_py v = Inr t"
  shows "\<exists>table. result_table (Some d) = Inr table"
proof -
  have "set (map snd (fixed_of (Some d))) \<subseteq> set (map snd d)"
    using values_rename_into[of "[]" d] by (simp add: fixed_of_def)
  then have "\<forall>v \<in> set (map snd (fixed_of (Some d))). \<exists>t. str_py v = Inr t" using assms by blast
  then show ?thesis unfolding result_table_def by (rule result_rows_succeeds)
qed

(* last occurrence *)
lemma map_of_rev_last:
  "map_of (rev xs) c =
     (if filter (\<lambda>kv. fst kv = c) xs = [] then None
      else Some (snd (last (filter (\<lambda>kv. fst kv = c) xs))))"
proof (induction xs)
  case Nil
  then show ?case by simp
next
  case (Cons x xs)
  then show ?case by (cases x) (auto simp: map_add_def)
qed

lemma filter_one: "distinct (map fst xs) \<Longrightarrow> k \<in> set (map fst xs) \<Longrightarrow>
  length (filter (\<lambda>kv. fst kv = k) xs) = 1"
proof (induction xs)
  case Nil
  then show ?case by simp
next
  case (Cons x xs)
  show ?case
  proof (cases "fst x = k")
    case True
    then have "k \<notin> set (map fst xs)" using Cons.prems(1) by auto
    then have "filter (\<lambda>kv. fst kv = k) xs = []" by (auto simp: filter_empty_conv)
    then show ?thesis using True by simp
  next
    case False
    then show ?thesis using Cons by auto
  qed
qed

lemma fixed_of_lookup:
  "map_of (fixed_of (Some d)) c =
     (if filter (\<lambda>kv. canonicalize (fst kv) = c) d = [] then None
      else Some (snd (last (filter (\<lambda>kv. canonicalize (fst kv) = c) d))))"
proof -
  let ?f = "\<lambda>kv. (canonicalize (fst kv), snd kv)"
  let ?sel = "filter (\<lambda>kv. canonicalize (fst kv) = c) d"
  have m: "map_of (fixed_of (Some d)) c = map_of (rev (map ?f d)) c"
    by (simp add: fixed_of_def map_of_rename_into split_def)
  have fl: "filter (\<lambda>kv. fst kv = c) (map ?f d) = map ?f ?sel"
    by (induction d) auto
  show ?thesis
  proof (cases "?sel = []")
    case True
    then show ?thesis unfolding m map_of_rev_last fl by simp
  next
    case False
    then have "snd (last (map ?f ?sel)) = snd (last ?sel)" by (simp add: last_map)
    then show ?thesis unfolding m map_of_rev_last fl using False by simp
  qed
qed

lemma Hypertension_last_wins:
  assumes "''hyt'' \<in> set (map fst d)"
  shows "length (filter (\<lambda>kv. fst kv = ''Hypertension'') (fixed_of (Some d))) = 1 \<and>
     map_of (fixed_of (Some d)) ''Hypertension'' =
       Some (snd (last (filter
         (\<lambda>kv. fst kv = ''hyt'' \<or> fst kv = ''htn'' \<or> fst kv = ''Hypertension'') d)))"
proof -
  let ?P = "\<lambda>kv. fst kv = ''hyt'' \<or> fst kv = ''htn'' \<or> fst kv = ''Hypertension''"
  let ?H = "''Hypertension''"
  have fe: "filter (\<lambda>kv. canonicalize (fst kv) = ?H) d = filter ?P d"
    by (rule filter_cong) (simp_all add: canonicalize_Hypertension)
  obtain kv where kv: "kv \<in> set d" "fst kv = ''hyt''" using assms by auto
  then have "kv \<in> set (filter ?P d)" by simp
  then have ne: "filter ?P d \<noteq> []" by (metis empty_iff empty_set)
  have look: "map_of (fixed_of (Some d)) ?H = Some (snd (last (filter ?P d)))"
    using fixed_of_lookup[of d ?H, unfolded fe] ne by (simp only: if_False)
  then have "(?H, snd (last (filter ?P d))) \<in> set (fixed_of (Some d))"
    by (rule map_of_SomeD)
  then have "fst (?H, snd (last (filter ?P d))) \<in> fst ` set (fixed_of (Some d))"
    by (rule imageI)
  then have mem: "?H \<in> set (map fst (fixed_of (Some d)))" by (simp only: fst_conv set_map)
  have dist: "distinct (map fst (fixed_of (Some d)))"
    by (simp add: fixed_of_def distinct_rename_into)
  have "length (filter (\<lambda>kv. fst kv = ?H) (fixed_of (Some d))) = 1"
    using dist mem by (rule filter_one)
  then show ?thesis using look by (rule conjI)
qed

subsection \<open>Two reports, evaluated\<close>

lemma canonicalize_examples:
  "canonicalize ''hyt'' = ''Hypertension''"
  "canonicalize ''htn'' = ''Hypertension''"
  "canonicalize ''Hypertension'' = ''Hypertension''"
  "canonicalize ''chol'' = ''Cholesterol''"
  "canonicalize ''restbps'' = ''Resting Blood Pressure''"
  "canonicalize ''age'' = ''age''"
  by (simp_all add: canonicalize_def dict_get_def rename_keys_def)

lemma fixed_hyp:
  "fixed_of (Some [(''hyt'', 1::int), (''htn'', 2), (''Hypertension'', 3)]) = [(''Hypertension'', 3)]"
  by (simp add: fixed_of_def canonicalize_examples)

lemma fixed_hyp_age:
  "fixed_of (Some [(''hyt'', 1::int), (''age'', 40), (''htn'', 2)]) =
     [(''Hypertension'', 2), (''age'', 40)]"
  by (simp add: fixed_of_def canonicalize_examples)

lemma fixed_heart:
  "fixed_of (Some [(''chol'', PInt 210), (''restbps'', PInt 130)]) =
     [(''Cholesterol'', PInt 210), (''Resting Blood Pressure'', PInt 130)]"
  by (simp add: fixed_of_def canonicalize_examples)

lemma range_keys:
  "''Cholesterol'' \<in> set (map fst normal_ranges)"
  "''Resting Blood Pressure'' \<in> set (map fst normal_ranges)"
  by (simp_all add: normal_ranges_def)

lemma digits_210: "digits_of_nat 210 = ''210''" "digits_of_nat 130 = ''130''"
  by (simp_all add: digits_of_nat.simps digit_chars_eval)

lemma flag_heart:
  "check_flag ''Cholesterol'' (PInt 210) = Inr ''High''"
  "check_flag ''Resting Blood Pressure'' (PInt 130) = Inr ''High''"
  using check_flag_int(1)[OF _ _ range_entries(1) form_lt_200, of 210]
    check_flag_int(2)[OF _ _ range_entries(2) form_90_120, of 130]
  by simp_all

lemma rows_heart:
  "result_table (Some [(''chol'', PInt 210), (''restbps'', PInt 130)]) =
     Inr [[''Parameter'', ''Value'', ''Normal Range'', ''Status''],
          [''Cholesterol'', ''210'', ''< 200'', ''High''],
          [''Resting Blood Pressure'', ''130'', ''90 - 120'', ''High'']]"
  by (simp add: result_table_def fixed_heart range_keys flag_heart str_int_def digits_210
      dict_get_def range_entries del: set_map)

lemma vocabulary_heart:
  "vocabulary_order [(''Cholesterol'', PInt 210), (''Resting Blood Pressure'', PInt 130)] =
     [''Resting Blood Pressure'', ''Cholesterol'']"
  by (simp add: vocabulary_order_def normal_ranges_def)

subsection \<open>The failures of the Normalizer\<close>

lemma ndim_fails: "ndim p = Inl e \<Longrightarrow> catchable e"
  by (cases p) (auto simp: catchable_def print_exn_def)

lemma shape1_fails: "shape1 p = Inl e \<Longrightarrow> catchable e"
  by (cases p) (auto simp: catchable_def print_exn_def split: list.splits)

lemma column_fails: "column p j = Inl e \<Longrightarrow> catchable e"
  by (cases p) (auto simp: catchable_def print_exn_def split: list.splits if_splits)

lemma ravel_fails: "ravel p = Inl e \<Longrightarrow> catchable e"
  by (cases p) (auto simp: catchable_def print_exn_def)

lemma sigmoid_fails: "sigmoid x = Inl e \<Longrightarrow> catchable e"
  by (auto simp: sigmoid_def math_exp_def catchable_def print_exn_def split: if_splits)

lemma sigmoid_all_fails: "sigmoid_all vs = Inl e \<Longrightarrow> catchable e"
  by (induction vs) (auto split: sum.splits dest: sigmoid_fails)

lemma map_sum_id_Inl: "map_sum id f x = Inl e \<longleftrightarrow> x = Inl e"
  by (cases x) auto

lemma two_columns_fails:
  "(if nd = 2 then map_sum id (\<lambda>k. 2 \<le> (k::nat)) (shape1 proba) else Inr False) = Inl e
   \<Longrightarrow> catchable e"
  by (cases "nd = 2") (simp_all add: map_sum_id_Inl shape1_fails)

lemma proba_branch_fails:
  assumes "(case ndim proba of
              Inl e \<Rightarrow> Inl e
            | Inr nd \<Rightarrow>
                (case (if nd = 2 then map_sum id (\<lambda>k. 2 \<le> k) (shape1 proba)
                       else Inr False) of
                   Inl e \<Rightarrow> Inl e
                 | Inr two_columns \<Rightarrow>
                     map_sum id (\<lambda>c. Some (Column c))
                       (column proba (if two_columns then 1 else 0)))) = Inl e"
  shows "catchable e"
proof (cases "ndim proba")
  case (Inl e')
  then show ?thesis using assms ndim_fails by simp
next
  case nd: (Inr nd)
  show ?thesis
  proof (cases "if nd = 2 then map_sum id (\<lambda>k. 2 \<le> k) (shape1 proba) else Inr False")
    case (Inl e')
    then have "e' = e" using assms nd by simp
    then show ?thesis using Inl two_columns_fails by blast
  next
    case (Inr two)
    then have "column proba (if two then 1 else 0) = Inl e"
      using assms nd by (simp add: map_sum_id_Inl)
    then show ?thesis by (rule column_fails)
  qed
qed

lemma df_branch_fails:
  assumes "(case ravel df of
              Inl e \<Rightarrow> Inl e
            | Inr vs \<Rightarrow> map_sum id (\<lambda>ys. Some (Sigmoids ys)) (sigmoid_all vs)) = Inl e"
  shows "catchable e"
proof (cases "ravel df")
  case (Inl e')
  then show ?thesis using assms ravel_fails by simp
next
  case (Inr vs)
  then have "sigmoid_all vs = Inl e" using assms by (simp add: map_sum_id_Inl)
  then show ?thesis by (rule sigmoid_all_fails)
qed

lemma body_failures:
  assumes "predict_body m X = Inl e"
  shows "model_raises m X e \<or> catchable e"
proof (cases m)
  case None
  then show ?thesis using assms by (simp add: predict_body_def)
next
  case m: (Some mdl)
  show ?thesis
  proof (cases "predict_proba mdl")
    case pp: (Some op_proba)
    show ?thesis
    proof (cases "op_proba X")
      case (Inl e')
      then have "e' = e" using assms m pp by (simp add: predict_body_def)
      then show ?thesis using Inl m pp by (simp add: model_raises_def)
    next
      case (Inr proba)
      then show ?thesis
        using assms m pp proba_branch_fails[of proba e] by (simp add: predict_body_def)
    qed
  next
    case pp: None
    show ?thesis
    proof (cases "decision_function mdl")
      case None
      then show ?thesis using assms m pp by (simp add: predict_body_def)
    next
      case df: (Some op_df)
      show ?thesis
      proof (cases "op_df X")
        case (Inl e')
        then have "e' = e" using assms m pp df by (simp add: predict_body_def)
        then show ?thesis using Inl m pp df by (simp add: model_raises_def)
      next
        case (Inr d)
        then show ?thesis
          using assms m pp df df_branch_fails[of d e] by (simp add: predict_body_def)
      qed
    qed
  qed
qed

lemma converts_catchable:
  "predict_body m X = Inl e \<Longrightarrow> catchable e \<Longrightarrow> safe_predict_proba m X = Inr None"
  by (simp add: safe_predict_proba_def catchable_def)

lemma keeps_result: "predict_body m X = Inr r \<Longrightarrow> safe_predict_proba m X = Inr r"
  by (simp add: safe_predict_proba_def)

lemma lets_through:
  "predict_body m X = Inl e \<Longrightarrow> \<not> is_Exception e \<Longrightarrow> safe_predict_proba m X = Inl e"
  by (simp add: safe_predict_proba_def)

lemma absent_model: "safe_predict_proba None X = Inr None"
  by (simp add: safe_predict_proba_def predict_body_def)

lemma returns_when_catchable:
  assumes h: "\<forall>e'. model_raises m X e' \<longrightarrow> catchable e'"
  shows "\<exists>r'. safe_predict_proba m X = Inr r'"
proof (cases "predict_body m X")
  case (Inl e)
  have d: "model_raises m X e \<or> catchable e" using Inl by (rule body_failures)
  have "catchable e"
  proof (rule disjE[OF d])
    assume "model_raises m X e"
    then show "catchable e" using h by (simp only:)
  next
    assume "catchable e"
    then show "catchable e" .
  qed
  then have "safe_predict_proba m X = Inr None" using Inl by (simp add: converts_catchable)
  then show ?thesis by (rule exI)
next
  case (Inr r)
  then have "safe_predict_proba m X = Inr r" by (rule keeps_result)
  then show ?thesis by (rule exI)
qed

lemma body_raising:
  "predict_body (Some \<lparr>predict_proba = Some (returns (Inl e)), decision_function = d\<rparr>) X = Inl e"
  by (simp add: predict_body_def returns_def)

lemma body_list:
  "predict_body (Some \<lparr>predict_proba = Some (returns (Inr (PyList xs))), decision_function = d\<rparr>) X
     = Inl (AttributeError ''ndim'')"
  by (simp add: predict_body_def returns_def)

lemma catchable_examples:
  "catchable (LibraryError ''boom'')" "catchable (AttributeError ''ndim'')"
  by (simp_all add: catchable_def print_exn_def)

subsection \<open>The branches of the Normalizer\<close>

lemma drop_concat_uniform:
  "\<forall>r \<in> set rows. length r = k \<Longrightarrow> i \<le> length rows \<Longrightarrow>
   drop (i * k) (concat rows) = concat (drop i rows)"
proof (induction rows arbitrary: i)
  case Nil
  then show ?case by simp
next
  case (Cons r rows)
  show ?case
  proof (cases i)
    case 0
    then show ?thesis by simp
  next
    case (Suc i')
    then have "i' \<le> length rows" using Cons.prems(2) by simp
    then have "drop (i' * k) (concat rows) = concat (drop i' rows)"
      using Cons.IH Cons.prems(1) by simp
    moreover have "length r = k" using Cons.prems(1) by simp
    ultimately show ?thesis using Suc by simp
  qed
qed

lemma cell_of_concat:
  assumes u: "\<forall>r \<in> set rows. length r = k" and i: "i < length rows" and j: "j < k"
  shows "take 1 (drop (i * k + j) (concat rows)) = [rows ! i ! j]"
proof -
  have d: "drop i rows = rows ! i # drop (Suc i) rows" using i by (simp add: Cons_nth_drop_Suc)
  have lr: "length (rows ! i) = k" using u i by simp
  have "drop (i * k + j) (concat rows) = drop j (drop (i * k) (concat rows))"
    by (simp add: add.commute)
  also have "\<dots> = drop j (concat (drop i rows))"
    using drop_concat_uniform[OF u, of i] i by simp
  also have "\<dots> = drop j (rows ! i) @ concat (drop (Suc i) rows)"
    using d lr j by simp
  finally have "take 1 (drop (i * k + j) (concat rows)) = take 1 (drop j (rows ! i))"
    using lr j by simp
  also have "\<dots> = [rows ! i ! j]"
    using lr j by (metis Cons_nth_drop_Suc One_nat_def take0 take_Suc_Cons)
  finally show ?thesis .
qed

lemma column_array2:
  assumes u: "\<forall>r \<in> set rows. length r = k" and j: "j < k"
  shows "column (Array (array2 k rows)) j = Inr (NdArray [length rows] (map (\<lambda>r. r ! j) rows))"
proof -
  have "map (\<lambda>i. take 1 (drop (i * k + j) (concat rows))) [0..<length rows]
      = map (\<lambda>i. [rows ! i ! j]) [0..<length rows]"
    by (rule map_cong) (simp_all add: cell_of_concat[OF u _ j, unfolded One_nat_def])
  then have "concat (map (\<lambda>i. take 1 (drop (i * k + j) (concat rows))) [0..<length rows])
      = concat (map (\<lambda>i. [rows ! i ! j]) [0..<length rows])"
    by (rule arg_cong)
  also have "\<dots> = map (\<lambda>i. rows ! i ! j) [0..<length rows]"
    by simp
  also have "\<dots> = map (\<lambda>r. r ! j) rows"
    by (rule nth_equalityI) simp_all
  finally show ?thesis using j by (simp add: array2_def)
qed


lemma body_two_columns:
  assumes "predict_proba mdl = Some op_proba" "op_proba X = Inr (Array (array2 k rows))"
    "\<forall>r \<in> set rows. length r = k" "2 \<le> k"
  shows "predict_body (Some mdl) X =
    Inr (Some (Column (NdArray [length rows] (map (\<lambda>r. r ! 1) rows))))"
proof -
  have c: "column (Array (array2 k rows)) (Suc 0) =
      Inr (NdArray [length rows] (map (\<lambda>r. r ! Suc 0) rows))"
    using column_array2[OF assms(3), of "Suc 0"] assms(4) by simp
  have n: "ndim (Array (array2 k rows)) = Inr 2" "shape1 (Array (array2 k rows)) = Inr k"
    by (simp_all add: array2_def)
  show ?thesis
    unfolding predict_body_def using assms(1,2,4)
    by (simp add: n c del: ndim.simps shape1.simps column.simps)
qed

lemma body_one_column:
  assumes "predict_proba mdl = Some op_proba" "op_proba X = Inr (Array (array2 1 rows))"
    "\<forall>r \<in> set rows. length r = 1"
  shows "predict_body (Some mdl) X =
    Inr (Some (Column (NdArray [length rows] (map (\<lambda>r. r ! 0) rows))))"
proof -
  have u: "\<forall>r \<in> set rows. length r = Suc 0" using assms(3) by simp
  have c: "column (Array (array2 (Suc 0) rows)) 0 =
      Inr (NdArray [length rows] (map (\<lambda>r. r ! 0) rows))"
    using column_array2[OF u, of 0] by simp
  have n: "ndim (Array (array2 (Suc 0) rows)) = Inr 2"
    "shape1 (Array (array2 (Suc 0) rows)) = Inr (Suc 0)"
    by (simp_all add: array2_def)
  show ?thesis
    unfolding predict_body_def using assms(1,2)
    by (simp add: n c del: ndim.simps shape1.simps column.simps)
qed

lemma sigmoid_logistic: "\<not> exp_overflows (- x) \<Longrightarrow> sigmoid x = Inr (logistic x)"
  by (simp add: sigmoid_def math_exp_def logistic_def)

lemma sigmoid_overflow:
  "exp_overflows (- x) \<Longrightarrow> sigmoid x = Inl (OverflowError ''math range error'')"
  by (simp add: sigmoid_def math_exp_def)

lemma sigmoid_all_logistic:
  "\<not> (\<exists>v \<in> set vs. exp_overflows (- v)) \<Longrightarrow> sigmoid_all vs = Inr (map logistic vs)"
  by (induction vs) (simp_all add: sigmoid_logistic)

lemma sigmoid_all_overflow:
  "\<exists>v \<in> set vs. exp_overflows (- v) \<Longrightarrow>
   sigmoid_all vs = Inl (OverflowError ''math range error'')"
proof (induction vs)
  case Nil
  then show ?case by simp
next
  case (Cons v vs)
  show ?case
  proof (cases "exp_overflows (- v)")
    case True
    then show ?thesis by (simp add: sigmoid_overflow)
  next
    case False
    then have "sigmoid_all vs = Inl (OverflowError ''math range error'')"
      using Cons by simp
    then show ?thesis using False by (simp add: sigmoid_logistic)
  qed
qed

lemma body_margins:
  assumes "predict_proba mdl = None" "decision_function mdl = Some op_df" "op_df X = Inr df"
    "ravel df = Inr vs"
  shows "predict_body (Some mdl) X =
    (if \<exists>v \<in> set vs. exp_overflows (- v) then Inl (OverflowError ''math range error'')
     else Inr (Some (Sigmoids (map logistic vs))))"
  unfolding predict_body_def using assms
  by (simp add: sigmoid_all_logistic sigmoid_all_overflow)

lemma body_no_operation:
  "predict_proba mdl = None \<Longrightarrow> decision_function mdl = None \<Longrightarrow>
   predict_body (Some mdl) X = Inr None"
  by (simp add: predict_body_def)

lemma logistic_0: "logistic 0 = 1 / 2"
  by (simp add: logistic_def)

lemma no_overflow_0: "\<not> exp_overflows 0"
  by (simp add: exp_overflows_def)

lemma overflow_2000: "exp_overflows 2000"
proof -
  have "(2::real) \<le> exp 1" using exp_ge_add_one_self[of "1::real"] by simp
  then have "(2::real) ^ 2000 \<le> exp 1 ^ 2000" by (rule power_mono) simp
  moreover have "exp (2000::real) = exp 1 ^ 2000"
    using exp_of_nat_mult[of 2000 "1::real"] by simp
  moreover have "(2::real) ^ 1024 - 2 ^ 970 \<le> 2 ^ 2000" by simp
  ultimately show ?thesis unfolding exp_overflows_def by linarith
qed

lemma catchable_overflow: "catchable (OverflowError ''math range error'')"
  by (simp add: catchable_def print_exn_def)

lemma margins_result:
  assumes "predict_proba mdl = None" "decision_function mdl = Some op_df" "op_df X = Inr df"
    "ravel df = Inr vs"
  shows "safe_predict_proba (Some mdl) X =
    Inr (if \<exists>v \<in> set vs. exp_overflows (- v) then None
         else Some (Sigmoids (map logistic vs)))"
proof (cases "\<exists>v \<in> set vs. exp_overflows (- v)")
  case True
  then have "predict_body (Some mdl) X = Inl (OverflowError ''math range error'')"
    using body_margins[OF assms] by (simp only: if_True)
  then have "safe_predict_proba (Some mdl) X = Inr None"
    using catchable_overflow by (rule converts_catchable)
  then show ?thesis using True by (simp only: if_True)
next
  case False
  then have "predict_body (Some mdl) X = Inr (Some (Sigmoids (map logistic vs)))"
    using body_margins[OF assms] by (simp only: if_False)
  then have "safe_predict_proba (Some mdl) X = Inr (Some (Sigmoids (map logistic vs)))"
    by (rule keeps_result)
  then show ?thesis using False by (simp only: if_False)
qed

section \<open>The claims\<close>

subsection \<open>The Sniffer rejects small files and markup\<close>

text \<open>
  C7. The Sniffer answers Implausible (\<open>False\<close>) for every file whose size is below the
  threshold of 100 bytes, and for every file whose bytes begin with one of the
  signatures the code recognises (\<open><!DO\<close>, \<open>{\<close>, \<open><htm\<close>, \<open><?xm\<close>), whatever its size.
\<close>

theorem sniffer_rejects_small_and_markup:
  "(getsize f = Inr n \<and> n < 100 \<longrightarrow> \<not> is_probable_pickle f) \<and>
   (g \<in> set text_signatures \<and> prefix g b \<longrightarrow> \<not> is_probable_pickle (File b))"
  using sniff_small sniff_signature by blast

theorem sniffer_rejects_small_and_markup_witness:
  "getsize (File ''abc'') = Inr 3 \<and> (3::nat) < 100 \<and> \<not> is_probable_pickle (File ''abc'') \<and>
   ''{'' \<in> set text_signatures \<and> prefix ''{'' (''{'' @ replicate 200 CHR ''x'') \<and>
   \<not> is_probable_pickle (File (''{'' @ replicate 200 CHR ''x''))"
  using sniffer_rejects_small_and_markup
    [of "File ''abc''" 3 "''{''" "''{'' @ replicate 200 CHR ''x''"]
  by (simp add: text_signatures_def)

subsection \<open>The Canonicalizer is idempotent\<close>

text \<open>
  C8. Renaming a key twice is renaming it once; a display name of the range table and
  a key that the rename table does not map are left as they are; and renaming the keys
  of an already renamed mapping gives the same mapping.
\<close>

theorem canonicalizer_idempotent:
  "canonicalize (canonicalize k) = canonicalize k \<and>
   (k \<in> set (map fst normal_ranges) \<longrightarrow> canonicalize k = k) \<and>
   (k \<notin> set (map fst rename_keys) \<longrightarrow> canonicalize k = k) \<and>
   fixed_of (Some (fixed_of data)) = fixed_of data"
proof -
  have "k \<notin> set (map fst rename_keys) \<longrightarrow> canonicalize k = k"
    by (metis canonicalize_unmapped map_of_eq_None_iff set_map)
  then show ?thesis
    using canonicalize_idem canonicalize_range_key fixed_of_idem by blast
qed

lemma Cholesterol_keys:
  "''Cholesterol'' \<in> set (map fst normal_ranges)"
  "''Cholesterol'' \<notin> set (map fst rename_keys)"
  by (simp_all add: normal_ranges_def rename_keys_def)

theorem canonicalizer_idempotent_witness:
  "''Cholesterol'' \<in> set (map fst normal_ranges) \<and>
   ''Cholesterol'' \<notin> set (map fst rename_keys) \<and>
   canonicalize ''Cholesterol'' = ''Cholesterol'' \<and>
   canonicalize (canonicalize ''chol'') = canonicalize ''chol''"
  using canonicalizer_idempotent[of "''Cholesterol''"] canonicalizer_idempotent[of "''chol''"]
    Cholesterol_keys by blast

subsection \<open>The Flagger on missing and blank values\<close>

text \<open>
  C9. For every parameter name the Flagger returns Normal, and raises nothing, on
  \<open>None\<close> and on every string that is empty or consists of white space only.
\<close>

theorem flagger_absorbs_blank:
  "check_flag param PNone = Inr ''Normal'' \<and>
   ((\<forall>c \<in> set t. isspace c) \<longrightarrow> check_flag param (PStr t) = Inr ''Normal'')"
  by (simp add: check_flag_def strip_all_space)

theorem flagger_absorbs_blank_witness:
  "isspace CHR '' '' \<and> isspace CHR 0x09 \<and>
   check_flag ''Cholesterol'' (PStr [CHR '' '', CHR 0x09]) = Inr ''Normal'' \<and>
   check_flag ''Cholesterol'' (PStr []) = Inr ''Normal''"
  using flagger_absorbs_blank[of "''Cholesterol''" "[CHR '' '', CHR 0x09]"]
    flagger_absorbs_blank[of "''Cholesterol''" "[]"]
  by (simp add: isspace_def)

subsection \<open>The string heuristic comes before the range\<close>

text \<open>
  C3. For every parameter name, with or without a numeric range in the table, the
  Flagger returns High on the string \<open>Yes\<close> in any letter case.
\<close>

theorem flagger_yes_is_high:
  "lower t = ''yes'' \<Longrightarrow> check_flag param (PStr t) = Inr ''High''"
proof -
  assume h: "lower t = ''yes''"
  then have "strip t = t" by (rule lower_yes_strip)
  moreover have "t \<noteq> []" using h by (auto simp: lower_def)
  ultimately show ?thesis using h by (simp add: check_flag_def high_words_def)
qed

lemma lower_YeS: "lower ''YeS'' = ''yes''"
  by code_simp

theorem flagger_yes_is_high_witness:
  "lower ''YeS'' = ''yes'' \<and> map_of normal_ranges ''Cholesterol'' = Some ''< 200'' \<and>
   check_flag ''Cholesterol'' (PStr ''YeS'') = Inr ''High''"
  using flagger_yes_is_high[OF lower_YeS, of "''Cholesterol''"] lower_YeS
  by (simp add: normal_ranges_def)

subsection \<open>The Loader when both formats fail\<close>

text \<open>
  C1. The claim is that a file which neither joblib nor pickle can read makes the
  Loader fail with one error that carries both causes. The last \<open>raise\<close> builds that
  error from \<open>e_job\<close> and \<open>e_pickle\<close>, but \<open>e_job\<close> was deleted when its handler was left:
  on a file of 100 bytes \<open>A\<close>, which passes the Sniffer and which both deserializers
  refuse, what the Loader raises is UnboundLocalError for \<open>e_job\<close>, with neither cause
  in it.
\<close>

lemma plausible_A: "is_probable_pickle (File (''AAAA'' @ replicate 96 CHR ''A''))"
  by (simp add: is_probable_pickle_def sniff_def binary_magic_def text_signatures_def)

theorem safe_load_loses_joblib_error:
  "safe_load (\<lambda>b. Inl (LibraryError ''joblib: invalid load key''))
      (\<lambda>b. Inl (LibraryError ''pickle: invalid load key''))
      (\<lambda>p. File (''AAAA'' @ replicate 96 CHR ''A'')) ''Heart/heart_model.pkl''
    = (Inl (UnboundLocalError ''e_job'') :: exn + unit)"
  using plausible_A
  by (simp add: safe_load_def load_with_def failure_message_def read_local_def print_exn_def
      Let_def)

subsection \<open>The Flagger on numbers\<close>

text \<open>
  C4. Let the range registered for a parameter be an upper bound \<open>< X\<close> or an
  interval \<open>low - high\<close>, and let the value be a number: its text is not one of the
  words of the string heuristics and \<open>float\<close> reads it as \<open>v\<close>. Then the Flagger
  returns High if \<open>v > X\<close> and Normal otherwise for the upper bound, and Low if
  \<open>v < low\<close>, High if \<open>v > high\<close> and Normal otherwise for the interval. For an
  integer value from 2 to below \<open>2\<close> to the 53 the comparison is that of the integer
  itself with the bounds. So 250 against \<open>< 200\<close> is High and 150 is Normal; 30
  against \<open>90 - 120\<close> is Low, 200 is High and 100 is Normal.
\<close>

theorem flagger_numeric_ranges:
  "(map_of normal_ranges param = Some rg \<and> val \<noteq> PNone \<and> str_py val = Inr sv \<and>
    \<not> categorical (strip sv) \<and> float_py (strip sv) = Inr v \<longrightarrow>
      (upper_bound_form rg X \<longrightarrow>
         check_flag param val = Inr (if float_gt v X then ''High'' else ''Normal'')) \<and>
      (interval_form rg lo hi \<longrightarrow>
         check_flag param val =
           Inr (if float_lt v lo then ''Low'' else if float_gt v hi then ''High''
                else ''Normal''))) \<and>
   (map_of normal_ranges param = Some rg \<and> 2 \<le> i \<and> i < 2 ^ 53 \<longrightarrow>
      (upper_bound_form rg (Fin bound) \<longrightarrow>
         check_flag param (PInt i) = Inr (if bound < of_int i then ''High'' else ''Normal'')) \<and>
      (interval_form rg (Fin low) (Fin high) \<longrightarrow>
         check_flag param (PInt i) =
           Inr (if of_int i < low then ''Low'' else if high < of_int i then ''High''
                else ''Normal''))) \<and>
   check_flag ''Cholesterol'' (PInt 250) = Inr ''High'' \<and>
   check_flag ''Cholesterol'' (PInt 150) = Inr ''Normal'' \<and>
   check_flag ''Resting Blood Pressure'' (PInt 30) = Inr ''Low'' \<and>
   check_flag ''Resting Blood Pressure'' (PInt 200) = Inr ''High'' \<and>
   check_flag ''Resting Blood Pressure'' (PInt 100) = Inr ''Normal'' \<and>
   range_check ''< 200'' ''250'' = Inr (Some ''High'') \<and>
   range_check ''< 200'' ''150'' = Inr (Some ''Normal'') \<and>
   range_check ''90-120'' ''30'' = Inr (Some ''Low'') \<and>
   range_check ''90-120'' ''200'' = Inr (Some ''High'') \<and>
   range_check ''90-120'' ''100'' = Inr (Some ''Normal'')"
  using check_flag_numeric[of param rg val sv v] check_flag_int[of i param rg]
    flag_examples range_check_examples
  by blast

theorem flagger_numeric_ranges_witness:
  "map_of normal_ranges ''Cholesterol'' = Some ''< 200'' \<and>
   str_py (PInt 250) = Inr ''250'' \<and> \<not> categorical (strip ''250'') \<and>
   float_py (strip ''250'') = Inr (Fin 250) \<and> upper_bound_form ''< 200'' (Fin 200) \<and>
   float_gt (Fin 250) (Fin 200) \<and>
   check_flag ''Cholesterol'' (PInt 250) = Inr ''High'' \<and>
   map_of normal_ranges ''Resting Blood Pressure'' = Some ''90 - 120'' \<and>
   interval_form ''90 - 120'' (Fin 90) (Fin 120) \<and>
   check_flag ''Resting Blood Pressure'' (PInt 30) = Inr ''Low''"
  using flagger_numeric_ranges[of "''Cholesterol''" "''< 200''" "PInt 250" "''250''" "Fin 250"
      "Fin 200" "Fin 0" "Fin 0" 30 200 90 120]
    flagger_numeric_ranges[of "''Resting Blood Pressure''" "''90 - 120''" "PInt 250" "''250''"
      "Fin 250" "Fin 200" "Fin 90" "Fin 120" 30 200 90 120]
    range_entries form_lt_200 form_90_120 not_categorical_250 float_py_250 strip_250
  by (simp add: str_int_def more_digits float_gt_def)

subsection \<open>The order of the result rows\<close>

text \<open>
  C2. The claim is that the rows of the results table come in the order in which
  \<open>normal_ranges\<close> declares the names. The loop runs over \<open>fixed.items()\<close>: the rows
  come in the insertion order of the canonicalized mapping, kept to the keys that
  \<open>normal_ranges\<close> has, and the table is built whenever \<open>str\<close> of every value
  returns. For a report that gives \<open>chol\<close> before \<open>restbps\<close> the Cholesterol row is
  above the Resting Blood Pressure row, the reverse of the order of declaration.
\<close>

theorem rows_follow_mapping_order:
  "(result_table data = Inr table \<longrightarrow>
      row_params table =
        filter (\<lambda>k. k \<in> set (map fst normal_ranges)) (map fst (fixed_of data))) \<and>
   ((\<forall>v \<in> set (map snd d). \<exists>t. str_py v = Inr t) \<longrightarrow>
      (\<exists>table. result_table (Some d) = Inr table))"
  using result_table_order result_table_succeeds by blast

theorem rows_follow_mapping_order_witness:
  "result_table (Some [(''chol'', PInt 210), (''restbps'', PInt 130)]) =
     Inr [[''Parameter'', ''Value'', ''Normal Range'', ''Status''],
          [''Cholesterol'', ''210'', ''< 200'', ''High''],
          [''Resting Blood Pressure'', ''130'', ''90 - 120'', ''High'']] \<and>
   map fst (fixed_of (Some [(''chol'', PInt 210), (''restbps'', PInt 130)])) =
     [''Cholesterol'', ''Resting Blood Pressure''] \<and>
   row_params [[''Parameter'', ''Value'', ''Normal Range'', ''Status''],
          [''Cholesterol'', ''210'', ''< 200'', ''High''],
          [''Resting Blood Pressure'', ''130'', ''90 - 120'', ''High'']] =
     [''Cholesterol'', ''Resting Blood Pressure''] \<and>
   str_py (PInt 210) = Inr ''210'' \<and> str_py (PInt 130) = Inr ''130''"
  using rows_follow_mapping_order[of "Some [(''chol'', PInt 210), (''restbps'', PInt 130)]"
      "[[''Parameter'', ''Value'', ''Normal Range'', ''Status''],
          [''Cholesterol'', ''210'', ''< 200'', ''High''],
          [''Resting Blood Pressure'', ''130'', ''90 - 120'', ''High'']]"
      "[(''chol'', PInt 210), (''restbps'', PInt 130)]"]
    rows_heart fixed_heart
  by (simp add: str_int_def digits_210 row_params_def)

theorem rows_not_in_vocabulary_order:
  "result_table (Some [(''chol'', PInt 210), (''restbps'', PInt 130)]) =
     Inr [[''Parameter'', ''Value'', ''Normal Range'', ''Status''],
          [''Cholesterol'', ''210'', ''< 200'', ''High''],
          [''Resting Blood Pressure'', ''130'', ''90 - 120'', ''High'']] \<and>
   row_params [[''Parameter'', ''Value'', ''Normal Range'', ''Status''],
          [''Cholesterol'', ''210'', ''< 200'', ''High''],
          [''Resting Blood Pressure'', ''130'', ''90 - 120'', ''High'']] =
     [''Cholesterol'', ''Resting Blood Pressure''] \<and>
   vocabulary_order (fixed_of (Some [(''chol'', PInt 210), (''restbps'', PInt 130)])) =
     [''Resting Blood Pressure'', ''Cholesterol'']"
  using rows_heart vocabulary_heart by (simp add: fixed_heart row_params_def)

subsection \<open>Two raw keys for one display name\<close>

text \<open>
  C10. \<open>hyt\<close> and \<open>htn\<close> are both renamed to \<open>Hypertension\<close>. For a mapping that has
  both, the renamed mapping has one \<open>Hypertension\<close> entry, with the value of the last
  of the keys \<open>hyt\<close>, \<open>htn\<close> and \<open>Hypertension\<close> in the order of the input; when the
  input has no key \<open>Hypertension\<close> of its own, that is the later of the two raw keys,
  as the claim says. An input with \<open>Hypertension\<close> after both raw keys ends with the
  value of that key, not with the value of \<open>htn\<close>.
\<close>

theorem hypertension_last_key_wins:
  "canonicalize ''hyt'' = ''Hypertension'' \<and> canonicalize ''htn'' = ''Hypertension'' \<and>
   (''hyt'' \<in> set (map fst d) \<and> ''htn'' \<in> set (map fst d) \<longrightarrow>
      length (filter (\<lambda>kv. fst kv = ''Hypertension'') (fixed_of (Some d))) = 1 \<and>
      map_of (fixed_of (Some d)) ''Hypertension'' =
        Some (snd (last (filter
          (\<lambda>kv. fst kv = ''hyt'' \<or> fst kv = ''htn'' \<or> fst kv = ''Hypertension'') d))) \<and>
      (''Hypertension'' \<notin> set (map fst d) \<longrightarrow>
         map_of (fixed_of (Some d)) ''Hypertension'' =
           Some (snd (last (filter (\<lambda>kv. fst kv = ''hyt'' \<or> fst kv = ''htn'') d)))))"
proof -
  have "filter (\<lambda>kv. fst kv = ''hyt'' \<or> fst kv = ''htn'' \<or> fst kv = ''Hypertension'') d =
      filter (\<lambda>kv. fst kv = ''hyt'' \<or> fst kv = ''htn'') d"
    if "''Hypertension'' \<notin> set (map fst d)"
    by (rule filter_cong) (use that in force)+
  then show ?thesis
    using Hypertension_last_wins[of d] canonicalize_examples(1,2) by simp
qed

theorem hypertension_last_key_wins_witness:
  "''hyt'' \<in> set (map fst [(''hyt'', 1::int), (''age'', 40), (''htn'', 2)]) \<and>
   ''htn'' \<in> set (map fst [(''hyt'', 1::int), (''age'', 40), (''htn'', 2)]) \<and>
   ''Hypertension'' \<notin> set (map fst [(''hyt'', 1::int), (''age'', 40), (''htn'', 2)]) \<and>
   fixed_of (Some [(''hyt'', 1::int), (''age'', 40), (''htn'', 2)]) =
     [(''Hypertension'', 2), (''age'', 40)] \<and>
   map_of (fixed_of (Some [(''hyt'', 1::int), (''age'', 40), (''htn'', 2)])) ''Hypertension'' =
     Some 2"
  using hypertension_last_key_wins[of "[(''hyt'', 1::int), (''age'', 40), (''htn'', 2)]"]
    fixed_hyp_age
  by simp

theorem hypertension_literal_key_wins:
  "fixed_of (Some [(''hyt'', 1::int), (''htn'', 2), (''Hypertension'', 3)]) =
     [(''Hypertension'', 3)] \<and>
   map_of [(''hyt'', 1::int), (''htn'', 2), (''Hypertension'', 3)] ''htn'' = Some 2 \<and>
   map_of (fixed_of (Some [(''hyt'', 1::int), (''htn'', 2), (''Hypertension'', 3)]))
     ''Hypertension'' \<noteq> Some 2"
  using fixed_hyp by simp

subsection \<open>What the Normalizer catches\<close>

text \<open>
  C6. The claim is that no exception ever leaves \<open>safe_predict_proba\<close>. Its handler is
  \<open>except Exception\<close>: the function returns what its body returns; an exception of the
  body that is an \<open>Exception\<close> and that the handler can print becomes \<open>None\<close>; an
  exception that is not an \<open>Exception\<close> leaves the function. The failures that the
  body produces itself (a missing attribute, an index out of range, a bad operand, an
  overflow) are among the first, so the function returns whenever the exceptions that
  the operation of the model raises are. It returns \<open>None\<close> for an absent model. A model
  whose operation raises \<open>KeyboardInterrupt\<close> makes the function raise it.
\<close>

theorem normalizer_converts_exceptions:
  "(predict_body m X = Inr r \<longrightarrow> safe_predict_proba m X = Inr r) \<and>
   (predict_body m X = Inl e \<and> catchable e \<longrightarrow> safe_predict_proba m X = Inr None) \<and>
   (predict_body m X = Inl e \<and> \<not> is_Exception e \<longrightarrow> safe_predict_proba m X = Inl e) \<and>
   ((\<forall>e'. model_raises m X e' \<longrightarrow> catchable e') \<longrightarrow> (\<exists>r'. safe_predict_proba m X = Inr r')) \<and>
   safe_predict_proba None X = Inr None"
proof (intro conjI impI)
  show "safe_predict_proba m X = Inr r" if "predict_body m X = Inr r"
    using that by (rule keeps_result)
  show "safe_predict_proba m X = Inr None" if "predict_body m X = Inl e \<and> catchable e"
    by (rule converts_catchable[OF conjunct1[OF that] conjunct2[OF that]])
  show "safe_predict_proba m X = Inl e" if "predict_body m X = Inl e \<and> \<not> is_Exception e"
    by (rule lets_through[OF conjunct1[OF that] conjunct2[OF that]])
  show "\<exists>r'. safe_predict_proba m X = Inr r'" if "\<forall>e'. model_raises m X e' \<longrightarrow> catchable e'"
    using that by (rule returns_when_catchable)
  show "safe_predict_proba None X = Inr None" by (rule absent_model)
qed

theorem normalizer_converts_exceptions_witness:
  "predict_body (Some \<lparr>predict_proba = Some (returns (Inl (LibraryError ''boom''))),
       decision_function = None\<rparr>) (0::nat) = Inl (LibraryError ''boom'') \<and>
   catchable (LibraryError ''boom'') \<and>
   safe_predict_proba (Some \<lparr>predict_proba = Some (returns (Inl (LibraryError ''boom''))),
       decision_function = None\<rparr>) (0::nat) = Inr None \<and>
   predict_body (Some \<lparr>predict_proba = Some (returns (Inr (PyList [0.2, 0.8]))),
       decision_function = None\<rparr>) (0::nat) = Inl (AttributeError ''ndim'') \<and>
   safe_predict_proba (Some \<lparr>predict_proba = Some (returns (Inr (PyList [0.2, 0.8]))),
       decision_function = None\<rparr>) (0::nat) = Inr None \<and>
   \<not> is_Exception (SystemExit ''1'') \<and>
   safe_predict_proba (Some \<lparr>predict_proba = Some (returns (Inl (SystemExit ''1''))),
       decision_function = None\<rparr>) (0::nat) = Inl (SystemExit ''1'')"
proof -
  note T = normalizer_converts_exceptions
  have n: "\<not> is_Exception (SystemExit ''1'')" by simp
  show ?thesis
    by (intro conjI body_raising body_list catchable_examples n
        mp[OF conjunct1[OF conjunct2[OF T]] conjI[OF body_raising catchable_examples(1)]]
        mp[OF conjunct1[OF conjunct2[OF T]] conjI[OF body_list catchable_examples(2)]]
        mp[OF conjunct1[OF conjunct2[OF conjunct2[OF T]]] conjI[OF body_raising n]])
qed

theorem normalizer_lets_interrupt_through:
  "safe_predict_proba (Some \<lparr>predict_proba = Some (returns (Inl KeyboardInterrupt)),
       decision_function = None\<rparr>) (0::nat) = Inl KeyboardInterrupt"
  by (simp add: safe_predict_proba_def body_raising)

subsection \<open>The order in which the Normalizer tries the operations\<close>

text \<open>
  C5. With a probability operation, the result is column 1 of its output when that is
  a two-dimensional array with at least two columns, and column 0 when it has one
  column, the values as they are; the decision function is not called. Without a
  probability operation and with a decision function, the result is the list of the
  logistic function of the margins, and a margin of 0 gives one half. The claim has
  this for every margin; but \<open>math.exp\<close> overflows on a margin far below zero, and
  then the result is \<open>None\<close> for the whole list, as for the margin \<open>- 2000\<close>. With
  neither operation, and for an absent model, the result is \<open>None\<close>. The arithmetic
  on the margins is that of the reals.
\<close>

theorem normalizer_priority:
  "(predict_proba mdl = Some op_proba \<and> op_proba X = Inr (Array (array2 k rows)) \<and>
    (\<forall>r \<in> set rows. length r = k) \<and> 2 \<le> k \<longrightarrow>
      safe_predict_proba (Some mdl) X =
        Inr (Some (Column (NdArray [length rows] (map (\<lambda>r. r ! 1) rows))))) \<and>
   (predict_proba mdl = Some op_proba \<and> op_proba X = Inr (Array (array2 1 rows)) \<and>
    (\<forall>r \<in> set rows. length r = 1) \<longrightarrow>
      safe_predict_proba (Some mdl) X =
        Inr (Some (Column (NdArray [length rows] (map (\<lambda>r. r ! 0) rows))))) \<and>
   (predict_proba mdl = None \<and> decision_function mdl = Some op_df \<and> op_df X = Inr df \<and>
    ravel df = Inr vs \<longrightarrow>
      safe_predict_proba (Some mdl) X =
        Inr (if \<exists>v \<in> set vs. exp_overflows (- v) then None
             else Some (Sigmoids (map logistic vs)))) \<and>
   (predict_proba mdl = None \<and> decision_function mdl = None \<longrightarrow>
      safe_predict_proba (Some mdl) X = Inr None) \<and>
   safe_predict_proba None X = Inr None \<and> logistic 0 = 1 / 2 \<and> \<not> exp_overflows 0"
proof (intro conjI impI)
  show "safe_predict_proba (Some mdl) X =
      Inr (Some (Column (NdArray [length rows] (map (\<lambda>r. r ! 1) rows))))"
    if h: "predict_proba mdl = Some op_proba \<and> op_proba X = Inr (Array (array2 k rows)) \<and>
      (\<forall>r \<in> set rows. length r = k) \<and> 2 \<le> k"
  proof -
    have "predict_body (Some mdl) X =
        Inr (Some (Column (NdArray [length rows] (map (\<lambda>r. r ! 1) rows))))"
      by (rule body_two_columns[of mdl op_proba X k rows]) (use h in simp_all)
    then show ?thesis by (rule keeps_result)
  qed
  show "safe_predict_proba (Some mdl) X =
      Inr (Some (Column (NdArray [length rows] (map (\<lambda>r. r ! 0) rows))))"
    if h: "predict_proba mdl = Some op_proba \<and> op_proba X = Inr (Array (array2 1 rows)) \<and>
      (\<forall>r \<in> set rows. length r = 1)"
  proof -
    have "predict_body (Some mdl) X =
        Inr (Some (Column (NdArray [length rows] (map (\<lambda>r. r ! 0) rows))))"
      by (rule body_one_column[of mdl op_proba X rows]) (use h in simp_all)
    then show ?thesis by (rule keeps_result)
  qed
  show "safe_predict_proba (Some mdl) X =
      Inr (if \<exists>v \<in> set vs. exp_overflows (- v) then None
           else Some (Sigmoids (map logistic vs)))"
    if h: "predict_proba mdl = None \<and> decision_function mdl = Some op_df \<and>
      op_df X = Inr df \<and> ravel df = Inr vs"
    by (rule margins_result[of mdl op_df X df vs]) (use h in simp_all)
  show "safe_predict_proba (Some mdl) X = Inr None"
    if h: "predict_proba mdl = None \<and> decision_function mdl = None"
  proof -
    have "predict_body (Some mdl) X = Inr None"
      by (rule body_no_operation[of mdl X]) (use h in simp_all)
    then show ?thesis by (rule keeps_result)
  qed
  show "safe_predict_proba None X = Inr None" by (rule absent_model)
  show "logistic 0 = 1 / 2" by (rule logistic_0)
  show "\<not> exp_overflows 0" by (rule no_overflow_0)
qed

theorem normalizer_priority_witness:
  "safe_predict_proba
     (Some \<lparr>predict_proba = Some (returns (Inr (Array (array2 2 [[0.3, 0.7], [0.9, 0.1]])))),
            decision_function = Some (returns (Inr (Array (NdArray [2] [5, 5]))))\<rparr>) (0::nat)
     = Inr (Some (Column (NdArray [2] [0.7, 0.1]))) \<and>
   safe_predict_proba
     (Some \<lparr>predict_proba = Some (returns (Inr (Array (array2 1 [[0.4], [0.6]])))),
            decision_function = None\<rparr>) (0::nat)
     = Inr (Some (Column (NdArray [2] [0.4, 0.6]))) \<and>
   safe_predict_proba
     (Some \<lparr>predict_proba = None,
            decision_function = Some (returns (Inr (Array (NdArray [1] [0]))))\<rparr>) (0::nat)
     = Inr (Some (Sigmoids [1 / 2])) \<and>
   safe_predict_proba (Some \<lparr>predict_proba = None, decision_function = None\<rparr>) (0::nat)
     = Inr None"
proof -
  note T = normalizer_priority
  have a: "safe_predict_proba
     (Some \<lparr>predict_proba = Some (returns (Inr (Array (array2 2 [[0.3, 0.7], [0.9, 0.1]])))),
            decision_function = Some (returns (Inr (Array (NdArray [2] [5, 5]))))\<rparr>) (0::nat)
     = Inr (Some (Column (NdArray [2] [0.7, 0.1])))"
    using conjunct1[OF T, of
        "\<lparr>predict_proba = Some (returns (Inr (Array (array2 2 [[0.3, 0.7], [0.9, 0.1]])))),
            decision_function = Some (returns (Inr (Array (NdArray [2] [5, 5]))))\<rparr>"
        "returns (Inr (Array (array2 2 [[0.3, 0.7], [0.9, 0.1]])))" "0::nat" 2
        "[[0.3, 0.7], [0.9, 0.1]]"]
    by (simp add: returns_def)
  have b: "safe_predict_proba
     (Some \<lparr>predict_proba = Some (returns (Inr (Array (array2 1 [[0.4], [0.6]])))),
            decision_function = None\<rparr>) (0::nat)
     = Inr (Some (Column (NdArray [2] [0.4, 0.6])))"
    using conjunct1[OF conjunct2[OF T], of
        "\<lparr>predict_proba = Some (returns (Inr (Array (array2 1 [[0.4], [0.6]])))),
            decision_function = None\<rparr>"
        "returns (Inr (Array (array2 1 [[0.4], [0.6]])))" "0::nat" "[[0.4], [0.6]]"]
    by (simp add: returns_def)
  have c: "safe_predict_proba
     (Some \<lparr>predict_proba = None,
            decision_function = Some (returns (Inr (Array (NdArray [1] [0]))))\<rparr>) (0::nat)
     = Inr (Some (Sigmoids [1 / 2]))"
    using conjunct1[OF conjunct2[OF conjunct2[OF T]], of
        "\<lparr>predict_proba = None,
            decision_function = Some (returns (Inr (Array (NdArray [1] [0]))))\<rparr>"
        "returns (Inr (Array (NdArray [1] [0])))" "0::nat" "Array (NdArray [1] [0])" "[0]"]
    by (simp add: returns_def logistic_0 no_overflow_0)
  have d: "safe_predict_proba (Some \<lparr>predict_proba = None, decision_function = None\<rparr>) (0::nat)
     = Inr None"
    using conjunct1[OF conjunct2[OF conjunct2[OF conjunct2[OF T]]], of
        "\<lparr>predict_proba = None, decision_function = None\<rparr>" "0::nat"]
    by simp
  show ?thesis using a b c d by (intro conjI)
qed

theorem normalizer_overflow_gives_none:
  "safe_predict_proba
     (Some \<lparr>predict_proba = None,
            decision_function = Some (returns (Inr (Array (NdArray [1] [- 2000]))))\<rparr>) (0::nat)
     = Inr None"
  using margins_result[of
      "\<lparr>predict_proba = None,
        decision_function = Some (returns (Inr (Array (NdArray [1] [- 2000]))))\<rparr>"
      "returns (Inr (Array (NdArray [1] [- 2000])))" "0::nat" "Array (NdArray [1] [- 2000])"
      "[- 2000]"] overflow_2000
  by (simp add: returns_def)

end
